theory Spec2Isabelle
  imports Complex_Main
begin

section \<open>Errors\<close>

text \<open>
  The exceptions of \<^verbatim>\<open>dipy/core/qball.py\<close>, one constructor for each \<^verbatim>\<open>raise\<close> of the
  source and one for each kind of exception that the array library raises inside the
  modelled operations.
\<close>

datatype error =
    ShOrderNotEven          \<comment> \<open>ValueError('sh_order must be an even integer >= 0')\<close>
  | ShOrderTooHigh nat      \<comment> \<open>ValueError('sh_order seems too high, there are only N ...')\<close>
  | DataMaskMismatch        \<comment> \<open>ValueError('the number of data elements does not match mask')\<close>
  | InvalidIndex            \<comment> \<open>IndexError('invalid index')\<close>
  | NumpyIndexError         \<comment> \<open>IndexError raised by an array access\<close>
  | NumpyValueError         \<comment> \<open>ValueError raised by an array operation (shapes, sizes)\<close>
  | NoneNotSubscriptable    \<comment> \<open>TypeError raised by a subscript of \<^verbatim>\<open>None\<close>\<close>
  | LinAlgError             \<comment> \<open>LinAlgError raised by the pseudo-inverse\<close>
  | NumpyAttributeError     \<comment> \<open>AttributeError raised by the assignment of an array attribute\<close>

section \<open>Flat array primitives\<close>

text \<open>
  \<^verbatim>\<open>np.arange(start, stop, step)\<close> on integers, for a positive step: the values
  \<open>start, start + step, \<dots>\<close> below \<open>stop\<close>.
\<close>

definition np_arange :: "int \<Rightarrow> int \<Rightarrow> int \<Rightarrow> int list" where
  "np_arange start stop step =
     map (\<lambda>i. start + int i * step) [0..<nat ((stop - start + step - 1) div step)]"

text \<open>
  \<^verbatim>\<open>np.repeat(xs, counts)\<close> with one count per element; a negative count is a ValueError.
\<close>

definition np_repeat :: "'a list \<Rightarrow> int list \<Rightarrow> error + 'a list" where
  "np_repeat xs counts =
     (if length counts \<noteq> length xs \<or> (\<exists>c \<in> set counts. c < 0) then Inl NumpyValueError
      else Inr (concat (map (\<lambda>(x, c). replicate (nat c) x) (zip xs counts))))"

text \<open>
  \<^verbatim>\<open>np.empty(n, 'int')\<close> allocates without initialising: the contents are whatever the
  memory held, given here by the parameter \<open>garbage\<close>. A negative size is a ValueError.
\<close>

definition np_empty :: "(nat \<Rightarrow> int) \<Rightarrow> int \<Rightarrow> error + int list" where
  "np_empty garbage n =
     (if n < 0 then Inl NumpyValueError else Inr (map garbage [0..<nat n]))"

text \<open>
  The bound of a Python slice on a sequence of length \<open>n\<close>: a negative bound counts from
  the end, and every bound is clipped to \<open>0..n\<close>.
\<close>

definition slice_bound :: "nat \<Rightarrow> int \<Rightarrow> nat" where
  "slice_bound n i = (if i < 0 then nat (int n + i) else min n (nat i))"

text \<open>
  \<^verbatim>\<open>a[lo:hi] = vals\<close> on a one-dimensional array: the values must have the length of
  the (clipped) slice, or length one, in which case the single value is broadcast;
  anything else is a ValueError.
\<close>

definition set_slice :: "'a list \<Rightarrow> int \<Rightarrow> int \<Rightarrow> 'a list \<Rightarrow> error + 'a list" where
  "set_slice a lo hi vals =
     (let l = slice_bound (length a) lo;
          h = slice_bound (length a) hi;
          len = h - l
      in if length vals = len then Inr (take l a @ vals @ drop (l + len) a)
         else if length vals = 1 then Inr (take l a @ replicate len (hd vals) @ drop (l + len) a)
         else Inl NumpyValueError)"

section \<open>The index list of the even spherical harmonics\<close>

text \<open>
  The loop of \<^verbatim>\<open>sph_harm_ind_list\<close>:
  \<^verbatim>\<open>
    for ii in n_range:
        m_list[offset:offset+2*ii+1] = np.arange(-ii, ii+1)
        offset = offset + 2*ii + 1
  \<close>
\<close>

fun fill_m_list :: "int list \<Rightarrow> int list \<Rightarrow> int \<Rightarrow> error + int list" where
  "fill_m_list [] m_list offset = Inr m_list"
| "fill_m_list (ii # rest) m_list offset =
     (case set_slice m_list offset (offset + 2 * ii + 1) (np_arange (- ii) (ii + 1) 1) of
        Inl e \<Rightarrow> Inl e
      | Inr m_list' \<Rightarrow> fill_m_list rest m_list' (offset + 2 * ii + 1))"

text \<open>
  \<^verbatim>\<open>sph_harm_ind_list(sh_order)\<close>. The two results are the columns \<open>m_list\<close> and
  \<open>n_list\<close> (arrays of shape \<open>(k, 1)\<close> in the source), given here as lists. The division
  in \<open>ncoef\<close> is the integer division of Python 2, which the source is written for.
\<close>

definition sph_harm_ind_list :: "(nat \<Rightarrow> int) \<Rightarrow> int \<Rightarrow> error + (int list \<times> int list)" where
  "sph_harm_ind_list garbage sh_order =
     (if sh_order mod 2 \<noteq> 0 then Inl ShOrderNotEven
      else
        let n_range = np_arange 0 (sh_order + 1) 2 in
        case np_repeat n_range (map (\<lambda>n. n * 2 + 1) n_range) of
          Inl e \<Rightarrow> Inl e
        | Inr n_list \<Rightarrow>
            let ncoef = (sh_order + 2) * (sh_order + 1) div 2 in
            case np_empty garbage ncoef of
              Inl e \<Rightarrow> Inl e
            | Inr m_list0 \<Rightarrow>
                (case fill_m_list n_range m_list0 0 of
                   Inl e \<Rightarrow> Inl e
                 | Inr m_list \<Rightarrow> Inr (m_list, n_list)))"


section \<open>N-dimensional arrays\<close>

text \<open>
  An array is its shape and its elements in scan (row-major, C) order; it is well formed
  when the number of elements is the product of the shape.
\<close>

record 'a ndarray =
  shape :: "nat list"
  elems :: "'a list"

definition wf_array :: "'a ndarray \<Rightarrow> bool" where
  "wf_array a = (length (elems a) = prod_list (shape a))"

text \<open>The cast of an integer to \<^verbatim>\<open>int32\<close>: two's complement wrap-around.\<close>

definition np_int32 :: "int \<Rightarrow> int" where
  "np_int32 v = (v + 2 ^ 31) mod 2 ^ 32 - 2 ^ 31"

definition np_zeros :: "nat list \<Rightarrow> int ndarray" where
  "np_zeros sh = \<lparr>shape = sh, elems = replicate (prod_list sh) 0\<rparr>"

text \<open>
  \<^verbatim>\<open>a[mask]\<close> for a boolean \<open>mask\<close> of the shape of \<open>a\<close>: the elements at the True
  positions, in scan order, as a one-dimensional array. Both lists are the elements in
  scan order.
\<close>

definition bool_select :: "'a list \<Rightarrow> bool list \<Rightarrow> 'a list" where
  "bool_select xs bs = map fst (filter snd (zip xs bs))"

text \<open>
  \<^verbatim>\<open>a[mask] = vals\<close> for a boolean \<open>mask\<close> of the shape of \<open>a\<close> and one value for each
  True position: the values go to the True positions in scan order.
\<close>

fun put_masked :: "'a list \<Rightarrow> bool list \<Rightarrow> 'a list \<Rightarrow> 'a list" where
  "put_masked (x # xs) (b # bs) vs =
     (if b then (case vs of [] \<Rightarrow> x # put_masked xs bs [] | v # vs' \<Rightarrow> v # put_masked xs bs vs')
      else x # put_masked xs bs vs)"
| "put_masked xs _ _ = xs"

text \<open>\<^verbatim>\<open>cumsum()\<close> of a one-dimensional array: the running sums.\<close>

fun cumsum_from :: "int \<Rightarrow> int list \<Rightarrow> int list" where
  "cumsum_from acc [] = []"
| "cumsum_from acc (x # xs) = (acc + x) # cumsum_from (acc + x) xs"

definition np_cumsum :: "int list \<Rightarrow> int list" where
  "np_cumsum xs = cumsum_from 0 xs"

text \<open>
  The shape of the broadcast of two arrays: the shapes are aligned at their last axis,
  two aligned axes must have the same length unless one of them has length one, and a
  missing axis counts as one of length one. The shapes are given reversed.
\<close>

fun broadcast_rev :: "nat list \<Rightarrow> nat list \<Rightarrow> error + nat list" where
  "broadcast_rev [] ys = Inr ys"
| "broadcast_rev xs [] = Inr xs"
| "broadcast_rev (x # xs) (y # ys) =
     (if x = y \<or> y = 1 then
        (case broadcast_rev xs ys of Inl e \<Rightarrow> Inl e | Inr zs \<Rightarrow> Inr (x # zs))
      else if x = 1 then
        (case broadcast_rev xs ys of Inl e \<Rightarrow> Inl e | Inr zs \<Rightarrow> Inr (y # zs))
      else Inl NumpyValueError)"

definition broadcast_shape :: "nat list \<Rightarrow> nat list \<Rightarrow> error + nat list" where
  "broadcast_shape xs ys =
     (case broadcast_rev (rev xs) (rev ys) of Inl e \<Rightarrow> Inl e | Inr zs \<Rightarrow> Inr (rev zs))"

subsection \<open>Indexing\<close>

text \<open>
  The subscript \<^verbatim>\<open>a[index]\<close> follows the indexing rules of the NumPy reference. An index
  is the tuple of its entries, and an index that is not a tuple is the tuple of that one
  entry. An entry is an integer, a slice \<^verbatim>\<open>start:stop:step\<close> (each part optional), the
  \<^verbatim>\<open>Ellipsis\<close>, \<^verbatim>\<open>np.newaxis\<close>, an array of integers or an array of booleans (a list
  given as an entry is the array of its items). Without an array among the entries the
  indexing is basic, and its result is a view of \<open>a\<close>; with one it is advanced, and its
  result is a new array.
\<close>

datatype index =
    Idx int
  | Slice "int option" "int option" "int option"
  | Ellipsis
  | NewAxis
  | IntArray "int ndarray"
  | BoolArray "bool ndarray"

definition is_array :: "index \<Rightarrow> bool" where
  "is_array i = (case i of IntArray a \<Rightarrow> True | BoolArray b \<Rightarrow> True | _ \<Rightarrow> False)"

definition is_integer :: "index \<Rightarrow> bool" where
  "is_integer i = (case i of Idx k \<Rightarrow> True | _ \<Rightarrow> False)"

text \<open>
  An array of integers without an axis selects like the integer that it holds.
\<close>

definition scalar_index :: "index \<Rightarrow> index" where
  "scalar_index i =
     (case i of IntArray a \<Rightarrow> (if shape a = [] then Idx (hd (elems a)) else i) | _ \<Rightarrow> i)"

text \<open>
  The number of axes that an entry addresses: one for an integer, a slice and an array of
  integers, as many as it has itself for an array of booleans, none for the others.
\<close>

definition consumed :: "index \<Rightarrow> nat" where
  "consumed i =
     (case i of
        Idx k \<Rightarrow> 1
      | Slice start stop step \<Rightarrow> 1
      | IntArray a \<Rightarrow> 1
      | BoolArray b \<Rightarrow> length (shape b)
      | _ \<Rightarrow> 0)"

text \<open>
  The positions that a slice selects on an axis of length \<open>d\<close>: Python's
  \<^verbatim>\<open>range(*slice(start, stop, step).indices(d))\<close>. A zero step is a ValueError.
\<close>

definition slice_range :: "int option \<Rightarrow> int option \<Rightarrow> int option \<Rightarrow> nat \<Rightarrow> error + nat list" where
  "slice_range start stop step d =
     (let s = (case step of None \<Rightarrow> 1 | Some s \<Rightarrow> s) in
      if s = 0 then Inl NumpyValueError
      else
        let n = int d;
            lower = (if s < 0 then - 1 else 0);
            upper = (if s < 0 then n - 1 else n);
            clip = (\<lambda>i. if i < 0 then max (i + n) lower else min i upper);
            b = (case start of None \<Rightarrow> (if s < 0 then upper else lower) | Some i \<Rightarrow> clip i);
            e = (case stop of None \<Rightarrow> (if s < 0 then lower else upper) | Some i \<Rightarrow> clip i);
            len = (if 0 < s then (if b < e then (e - b - 1) div s + 1 else 0)
                   else (if e < b then (b - e - 1) div (- s) + 1 else 0))
        in Inr (map (\<lambda>i. nat (b + int i * s)) [0..<nat len]))"

text \<open>
  The \<^verbatim>\<open>Ellipsis\<close> of an index stands for as many full slices as are needed to address
  every axis of an array of \<open>nd\<close> dimensions.
\<close>

definition expand_ellipsis :: "nat \<Rightarrow> index list \<Rightarrow> index list" where
  "expand_ellipsis nd items =
     (let pre = takeWhile (\<lambda>i. i \<noteq> Ellipsis) items;
          post = dropWhile (\<lambda>i. i \<noteq> Ellipsis) items
      in case post of
           [] \<Rightarrow> items
         | _ # post' \<Rightarrow>
             pre @ replicate (nd - sum_list (map consumed (pre @ post'))) (Slice None None None)
                 @ post')"

text \<open>
  Basic indexing: the shape of \<^verbatim>\<open>a[items]\<close> and, for each element of the result in scan
  order, its position among the elements of \<open>a\<close>. An integer addresses one position of
  its axis and removes the axis, a slice keeps the axis with the selected positions,
  \<^verbatim>\<open>np.newaxis\<close> adds an axis of length one, the axes that the index does not reach are
  kept whole. An integer out of range, an index for an axis that does not exist and an
  \<^verbatim>\<open>Ellipsis\<close> that is left in the index are an IndexError. A negative integer counts
  from the end of its axis. An index with an array is not basic.
\<close>

fun index_offsets :: "nat list \<Rightarrow> index list \<Rightarrow> error + (nat list \<times> nat list)" where
  "index_offsets ds [] = Inr (ds, [0..<prod_list ds])"
| "index_offsets ds (NewAxis # items) =
     (case index_offsets ds items of
        Inl e \<Rightarrow> Inl e
      | Inr (sh, offs) \<Rightarrow> Inr (1 # sh, offs))"
| "index_offsets ds (Ellipsis # items) = Inl NumpyIndexError"
| "index_offsets [] (Idx i # items) = Inl NumpyIndexError"
| "index_offsets [] (Slice start stop step # items) = Inl NumpyIndexError"
| "index_offsets (d # ds) (Idx i # items) =
     (if - int d \<le> i \<and> i < int d then
        (case index_offsets ds items of
           Inl e \<Rightarrow> Inl e
         | Inr (sh, offs) \<Rightarrow> Inr (sh, map (\<lambda>off. nat (i mod int d) * prod_list ds + off) offs))
      else Inl NumpyIndexError)"
| "index_offsets (d # ds) (Slice start stop step # items) =
     (case slice_range start stop step d of
        Inl e \<Rightarrow> Inl e
      | Inr js \<Rightarrow>
          (case index_offsets ds items of
             Inl e \<Rightarrow> Inl e
           | Inr (sh, offs) \<Rightarrow>
               Inr (length js # sh,
                    concat (map (\<lambda>j. map (\<lambda>off. j * prod_list ds + off) offs) js))))"
| "index_offsets ds (IntArray a # items) = Inl NumpyIndexError"
| "index_offsets ds (BoolArray b # items) = Inl NumpyIndexError"

text \<open>
  Advanced indexing. Every entry is first made a selector of the axes that it addresses,
  which form a block of \<open>D\<close> positions of the array (one axis of that length, but for an
  array of booleans, which addresses as many axes as it has):
  \<^item> an integer fixes the position in its axis and gives no axis of the result;
  \<^item> a slice gives an axis of the result, which runs over the selected positions; so
    does every axis that the index does not reach, which is kept whole;
  \<^item> an array of integers picks, for each of its elements, the position that the element
    holds;
  \<^item> an array of booleans is the array of the positions of its True entries, in scan
    order;
  \<^item> \<^verbatim>\<open>np.newaxis\<close> gives an axis of length one, and the \<^verbatim>\<open>Ellipsis\<close> the axes that it
    stands for; both separate the entries in front of them from those that follow.
\<close>

datatype selector =
    Fixed nat nat
  | Along "nat list" nat
  | Picked "nat list" "int list" nat
  | New
  | Gap

text \<open>
  An array of booleans must have the lengths of the axes that it addresses, or the index
  is an IndexError.
\<close>

fun bool_shapes_ok :: "nat list \<Rightarrow> index list \<Rightarrow> bool" where
  "bool_shapes_ok ds [] = True"
| "bool_shapes_ok ds (BoolArray b # items) =
     (take (length (shape b)) ds = shape b \<and> bool_shapes_ok (drop (length (shape b)) ds) items)"
| "bool_shapes_ok ds (Ellipsis # items) =
     bool_shapes_ok (drop (length ds - sum_list (map consumed items)) ds) items"
| "bool_shapes_ok ds (NewAxis # items) = bool_shapes_ok ds items"
| "bool_shapes_ok ds (i # items) = bool_shapes_ok (tl ds) items"

text \<open>
  The selectors of an index on the axes \<open>ds\<close>. An integer is checked against its axis
  here, the elements of an array of integers only when the index arrays have been
  broadcast.
\<close>

fun selectors :: "nat list \<Rightarrow> index list \<Rightarrow> error + selector list" where
  "selectors ds [] = Inr (map (\<lambda>d. Along [0..<d] d) ds)"
| "selectors ds (NewAxis # items) =
     (case selectors ds items of Inl e \<Rightarrow> Inl e | Inr ss \<Rightarrow> Inr (New # ss))"
| "selectors ds (Ellipsis # items) =
     (case selectors (drop (length ds - sum_list (map consumed items)) ds) items of
        Inl e \<Rightarrow> Inl e
      | Inr ss \<Rightarrow>
          Inr (Gap # map (\<lambda>d. Along [0..<d] d)
                        (take (length ds - sum_list (map consumed items)) ds) @ ss))"
| "selectors ds (Idx i # items) =
     (case ds of
        [] \<Rightarrow> Inl NumpyIndexError
      | d # ds' \<Rightarrow>
          if - int d \<le> i \<and> i < int d then
            (case selectors ds' items of
               Inl e \<Rightarrow> Inl e
             | Inr ss \<Rightarrow> Inr (Fixed (nat (i mod int d)) d # ss))
          else Inl NumpyIndexError)"
| "selectors ds (Slice start stop step # items) =
     (case ds of
        [] \<Rightarrow> Inl NumpyIndexError
      | d # ds' \<Rightarrow>
          (case slice_range start stop step d of
             Inl e \<Rightarrow> Inl e
           | Inr js \<Rightarrow>
               (case selectors ds' items of
                  Inl e \<Rightarrow> Inl e
                | Inr ss \<Rightarrow> Inr (Along js d # ss))))"
| "selectors ds (IntArray a # items) =
     (case ds of
        [] \<Rightarrow> Inl NumpyIndexError
      | d # ds' \<Rightarrow>
          (case selectors ds' items of
             Inl e \<Rightarrow> Inl e
           | Inr ss \<Rightarrow> Inr (Picked (shape a) (elems a) d # ss)))"
| "selectors ds (BoolArray b # items) =
     (case selectors (drop (length (shape b)) ds) items of
        Inl e \<Rightarrow> Inl e
      | Inr ss \<Rightarrow>
          Inr (Picked [length (filter (\<lambda>p. elems b ! p) [0..<prod_list (take (length (shape b)) ds)])]
                 (map int (filter (\<lambda>p. elems b ! p) [0..<prod_list (take (length (shape b)) ds)]))
                 (prod_list (take (length (shape b)) ds)) # ss))"

text \<open>
  The axes of the result that come from the slices, the kept axes and \<^verbatim>\<open>np.newaxis\<close>;
  the selectors that count as advanced for the place of the broadcast axes (the integers
  are among them); the shapes of the index arrays.
\<close>

definition basic_dims :: "selector list \<Rightarrow> nat list" where
  "basic_dims ss =
     concat (map (\<lambda>s. case s of Along js D \<Rightarrow> [length js] | New \<Rightarrow> [1] | _ \<Rightarrow> []) ss)"

definition fancy_like :: "selector \<Rightarrow> bool" where
  "fancy_like s = (case s of Fixed c D \<Rightarrow> True | Picked sh cs D \<Rightarrow> True | _ \<Rightarrow> False)"

definition picked_shapes :: "selector list \<Rightarrow> nat list list" where
  "picked_shapes ss = concat (map (\<lambda>s. case s of Picked sh cs D \<Rightarrow> [sh] | _ \<Rightarrow> []) ss)"

fun broadcast_all :: "nat list list \<Rightarrow> error + nat list" where
  "broadcast_all [] = Inr []"
| "broadcast_all (sh # shs) =
     (case broadcast_all shs of Inl e \<Rightarrow> Inl e | Inr b \<Rightarrow> broadcast_shape sh b)"

text \<open>
  Every element of an index array must be a position of the block that the array
  addresses, counted from its end when it is negative.
\<close>

definition picked_in_range :: "selector \<Rightarrow> bool" where
  "picked_in_range s =
     (case s of
        Picked sh cs D \<Rightarrow> list_all (\<lambda>p. - int D \<le> cs ! p \<and> cs ! p < int D) [0..<prod_list sh]
      | _ \<Rightarrow> True)"

text \<open>The coordinate tuples of an array of the shape \<open>sh\<close>, in scan order.\<close>

fun multi_indices :: "nat list \<Rightarrow> nat list list" where
  "multi_indices [] = [[]]"
| "multi_indices (d # ds) = concat (map (\<lambda>i. map ((#) i) (multi_indices ds)) [0..<d])"

text \<open>
  The scan position, in an array of the shape \<open>sh\<close>, of the element that is broadcast to
  the coordinates \<open>cs\<close>: an axis of length one is repeated along the axis of the
  broadcast, which any other axis has the length of.
\<close>

fun bravel :: "nat list \<Rightarrow> nat list \<Rightarrow> nat" where
  "bravel (d # ds) (c # cs) = (c mod d) * prod_list ds + bravel ds cs"
| "bravel ds cs = 0"

text \<open>
  For an element of the result, given by its coordinates \<open>bs\<close> on the axes of
  \<open>basic_dims\<close> and its coordinates \<open>bc\<close> on the axes of the broadcast of the index
  arrays: the position that each selector takes in its block, with the size of the block.
  The shapes of the index arrays are aligned with the broadcast at the last axis.
\<close>

fun digits :: "selector list \<Rightarrow> nat list \<Rightarrow> nat list \<Rightarrow> (nat \<times> nat) list" where
  "digits [] bs bc = []"
| "digits (Fixed c D # ss) bs bc = (c, D) # digits ss bs bc"
| "digits (Along js D # ss) bs bc = (js ! hd bs, D) # digits ss (tl bs) bc"
| "digits (New # ss) bs bc = digits ss (tl bs) bc"
| "digits (Gap # ss) bs bc = digits ss bs bc"
| "digits (Picked sh cs D # ss) bs bc =
     (nat (cs ! bravel sh (drop (length bc - length sh) bc) mod int D), D) # digits ss bs bc"

text \<open>The scan position of the element with the given positions in consecutive blocks.\<close>

fun ravel_blocks :: "(nat \<times> nat) list \<Rightarrow> nat" where
  "ravel_blocks [] = 0"
| "ravel_blocks ((c, D) # rest) = c * prod_list (map snd rest) + ravel_blocks rest"

text \<open>
  The shape of \<^verbatim>\<open>a[items]\<close> for an index with an array and, for each element of the
  result in scan order, its position among the elements of \<open>a\<close>. The index arrays are
  broadcast to one shape, and index arrays that cannot be are an IndexError; so is an
  element of an index array out of range, unless the broadcast has no element. The axes
  of the broadcast stand where the advanced entries stand when these are all next to each
  other, and in front of all other axes of the result when they are not.
\<close>

definition advanced_offsets :: "nat list \<Rightarrow> index list \<Rightarrow> error + (nat list \<times> nat list)" where
  "advanced_offsets ds items =
     (if \<not> bool_shapes_ok ds items then Inl NumpyIndexError
      else
        case selectors ds items of
          Inl e \<Rightarrow> Inl e
        | Inr ss \<Rightarrow>
            (case broadcast_all (picked_shapes ss) of
               Inl e \<Rightarrow> Inl NumpyIndexError
             | Inr bsh \<Rightarrow>
                 if prod_list bsh \<noteq> 0 \<and> \<not> list_all picked_in_range ss then Inl NumpyIndexError
                 else
                   let pre = takeWhile (\<lambda>s. \<not> fancy_like s) ss;
                       rest = dropWhile (\<lambda>s. \<not> fancy_like s) ss;
                       adjacent = list_all (\<lambda>s. \<not> fancy_like s) (dropWhile fancy_like rest);
                       lead = (if adjacent then basic_dims pre else []);
                       trail = (if adjacent then basic_dims rest else basic_dims ss)
                   in Inr (lead @ bsh @ trail,
                           map (\<lambda>r. ravel_blocks
                                      (digits ss
                                         (take (length lead) r @ drop (length lead + length bsh) r)
                                         (take (length bsh) (drop (length lead) r))))
                               (multi_indices (lead @ bsh @ trail)))))"

text \<open>
  \<^verbatim>\<open>a[index]\<close>. More than one \<^verbatim>\<open>Ellipsis\<close> and an index that addresses more axes than
  the array has are an IndexError, which is raised first, when no entry has been looked at yet.
\<close>

definition np_getitem :: "'a ndarray \<Rightarrow> index list \<Rightarrow> error + 'a ndarray" where
  "np_getitem a index =
     (let items = map scalar_index index in
      if 1 < length (filter (\<lambda>i. i = Ellipsis) items)
         \<or> length (shape a) < sum_list (map consumed items)
      then Inl NumpyIndexError
      else
        (case (if list_ex is_array items then advanced_offsets (shape a) items
               else index_offsets (shape a) (expand_ellipsis (length (shape a)) items)) of
           Inl e \<Rightarrow> Inl e
         | Inr (sh, offs) \<Rightarrow> Inr \<lparr>shape = sh, elems = map (\<lambda>off. elems a ! off) offs\<rparr>))"

subsection \<open>The layout of an array in memory\<close>

text \<open>
  An array lies in memory with a stride for each of its axes, the distance between two
  neighbours along the axis, counted here in elements. A new array is laid out in scan
  order. A view has the strides of the array that it is a view of, multiplied by the
  steps of the slices; an axis added by \<^verbatim>\<open>np.newaxis\<close> has the stride zero. An index of
  integers for every axis gives an array scalar, which is no array object.
\<close>

datatype layout = Scalar | Strided "int list"

definition layout_strides :: "layout \<Rightarrow> int list" where
  "layout_strides l = (case l of Scalar \<Rightarrow> [] | Strided st \<Rightarrow> st)"

fun c_strides :: "nat list \<Rightarrow> int list" where
  "c_strides [] = []"
| "c_strides (d # ds) = int (prod_list ds) # c_strides ds"

fun view_strides :: "int list \<Rightarrow> index list \<Rightarrow> int list" where
  "view_strides st [] = st"
| "view_strides st (NewAxis # items) = 0 # view_strides st items"
| "view_strides (s # st) (Idx i # items) = view_strides st items"
| "view_strides (s # st) (Slice start stop step # items) =
     s * (case step of None \<Rightarrow> 1 | Some k \<Rightarrow> k) # view_strides st items"
| "view_strides st (i # items) = view_strides st items"

text \<open>
  The memory layout of the result of an advanced indexing is chosen by the library for
  each indexing operation, and no particular order can be assumed (NumPy reference): it
  is a parameter of the model, which gives the strides of the result from the layout and
  the shape of the indexed array, the index and the shape of the result.
\<close>

type_synonym allocator = "layout \<Rightarrow> nat list \<Rightarrow> index list \<Rightarrow> nat list \<Rightarrow> int list"

definition getitem_layout ::
  "allocator \<Rightarrow> layout \<Rightarrow> nat list \<Rightarrow> index list \<Rightarrow> nat list \<Rightarrow> layout" where
  "getitem_layout alloc l ds index rs =
     (if list_ex is_array index then Strided (alloc l ds index rs)
      else if list_all is_integer index \<and> length index = length ds then Scalar
      else Strided (view_strides (layout_strides l) (expand_ellipsis (length ds) index)))"

text \<open>
  An array is contiguous in scan order when every axis has the stride of the number of
  elements that follow it; the stride of an axis of length one does not count, and an array
  without elements is contiguous.
\<close>

fun c_contiguous :: "nat list \<Rightarrow> int list \<Rightarrow> bool" where
  "c_contiguous (d # ds) (s # st) = ((d = 1 \<or> s = int (prod_list ds)) \<and> c_contiguous ds st)"
| "c_contiguous ds st = True"

definition is_c_contiguous :: "nat list \<Rightarrow> int list \<Rightarrow> bool" where
  "is_c_contiguous sh st = (0 \<in> set sh \<or> c_contiguous sh st)"

text \<open>
  The new shape of a reshape may leave one length open, given as a negative number, which
  is the length that makes the number of elements fit; the new shape must have the number
  of elements of the array, or the reshape is a ValueError.
\<close>

definition fix_unknown_dimension :: "nat \<Rightarrow> int list \<Rightarrow> error + nat list" where
  "fix_unknown_dimension n new =
     (let known = nat (prod_list (filter (\<lambda>d. 0 \<le> d) new)) in
      if 1 < length (filter (\<lambda>d. d < 0) new) then Inl NumpyValueError
      else if filter (\<lambda>d. d < 0) new = [] then
        (if known = n then Inr (map nat new) else Inl NumpyValueError)
      else if known = 0 \<or> n mod known \<noteq> 0 then Inl NumpyValueError
      else Inr (map (\<lambda>d. if d < 0 then n div known else nat d) new))"

text \<open>
  The reshape of an array that is not contiguous, without a copy (the library's
  \<^verbatim>\<open>_attempt_nocopy_reshape\<close>, for the scan order): the axes of length one of the array
  are left out; the axes of the new shape and of the old one are grouped, from the
  front, into the shortest runs with equal products (\<open>pn\<close> and \<open>po\<close>, for the runs \<open>gn\<close>
  and \<open>go\<close>); the old axes of a group must lie in memory like one axis, and the new axes
  of the group divide this axis. New axes after the last group have length one, and
  the stride of the last axis of that group. The result is the strides of the new shape,
  or nothing when a group of old axes does not lie like one axis.
\<close>

fun mergeable :: "(nat \<times> int) list \<Rightarrow> bool" where
  "mergeable ((d, s) # (d', s') # rest) = (s = int d' * s' \<and> mergeable ((d', s') # rest))"
| "mergeable ds = True"

fun strides_ending :: "nat list \<Rightarrow> int \<Rightarrow> int list" where
  "strides_ending [] sl = []"
| "strides_ending (n # ns) sl = sl * int (prod_list ns) # strides_ending ns sl"

function nocopy_strides ::
  "nat \<Rightarrow> nat list \<Rightarrow> nat \<Rightarrow> (nat \<times> int) list \<Rightarrow> nat list \<Rightarrow> (nat \<times> int) list \<Rightarrow> int list option" where
  "nocopy_strides pn gn po go ns os =
     (if pn < po then
        (case ns of
           [] \<Rightarrow> None
         | n # ns' \<Rightarrow> nocopy_strides (pn * n) (gn @ [n]) po go ns' os)
      else if po < pn then
        (case os of
           [] \<Rightarrow> None
         | ax # os' \<Rightarrow> nocopy_strides pn gn (po * fst ax) (go @ [ax]) ns os')
      else if \<not> mergeable go then None
      else
        (case ns of
           [] \<Rightarrow> Some (strides_ending gn (snd (last go)))
         | n # ns' \<Rightarrow>
             (case os of
                [] \<Rightarrow> Some (strides_ending gn (snd (last go)) @ map (\<lambda>k. snd (last go)) ns)
              | ax # os' \<Rightarrow>
                  (case nocopy_strides n [n] (fst ax) [ax] ns' os' of
                     None \<Rightarrow> None
                   | Some st \<Rightarrow> Some (strides_ending gn (snd (last go)) @ st)))))"
  by pat_completeness auto

termination nocopy_strides
  by (relation "measure (\<lambda>(pn, gn, po, go, ns, os). length ns + length os)") auto

definition attempt_nocopy_reshape :: "nat list \<Rightarrow> int list \<Rightarrow> nat list \<Rightarrow> int list option" where
  "attempt_nocopy_reshape sh st new =
     (case filter (\<lambda>ax. fst ax \<noteq> 1) (zip sh st) of
        [] \<Rightarrow> Some (map (\<lambda>k. 1) new)
      | ax # os \<Rightarrow>
          (case new of
             [] \<Rightarrow> Some []
           | n # ns \<Rightarrow> nocopy_strides n [n] (fst ax) [ax] ns os))"

text \<open>
  The assignment \<^verbatim>\<open>a.shape = new\<close> to an array of the shape \<open>sh\<close> and the strides \<open>st\<close>
  reshapes the array in place. The shape that the array has is kept as it is. An array
  that is contiguous, or has at most one element, takes the new shape in scan order.
  Any other array takes it when this needs no copy, and the assignment is an
  AttributeError when it does. The result is the new shape with its strides.
\<close>

definition np_reshape_inplace ::
  "nat list \<Rightarrow> int list \<Rightarrow> int list \<Rightarrow> error + (nat list \<times> int list)" where
  "np_reshape_inplace sh st new =
     (if new = map int sh then Inr (sh, st)
      else
        case fix_unknown_dimension (prod_list sh) new of
          Inl e \<Rightarrow> Inl e
        | Inr sh' \<Rightarrow>
            if prod_list sh \<le> 1 \<or> is_c_contiguous sh st then Inr (sh', c_strides sh')
            else
              (case attempt_nocopy_reshape sh st sh' of
                 None \<Rightarrow> Inl NumpyAttributeError
               | Some st' \<Rightarrow> Inr (sh', st')))"

subsection \<open>Arrays seen along their first axis\<close>

text \<open>
  The data of a store is only ever addressed by row (\<^verbatim>\<open>data.shape[0]\<close>,
  \<^verbatim>\<open>data[rows]\<close>, \<^verbatim>\<open>data[rows] = values\<close>): it is modelled as the sequence of its
  sub-arrays along the first axis, with their common shape and the element type of the
  array. Its shape is \<open>length (rows d) # row_shape d\<close>.
\<close>

record ('d, 'r) row_array =
  dtype :: 'd
  row_shape :: "nat list"
  rows :: "'r list"

definition row_array_shape :: "('d, 'r) row_array \<Rightarrow> nat list" where
  "row_array_shape d = length (rows d) # row_shape d"

text \<open>
  \<^verbatim>\<open>d[idx]\<close> for a one-dimensional integer array \<open>idx\<close>: the addressed rows, in the
  order of \<open>idx\<close>. A negative number counts from the end; a number out of range is an
  IndexError.
\<close>

definition row_in_range :: "nat \<Rightarrow> int \<Rightarrow> bool" where
  "row_in_range n i = (- int n \<le> i \<and> i < int n)"

definition row_number :: "nat \<Rightarrow> int \<Rightarrow> nat" where
  "row_number n i = nat (if i < 0 then i + int n else i)"

definition take_rows :: "('d, 'r) row_array \<Rightarrow> int list \<Rightarrow> error + ('d, 'r) row_array" where
  "take_rows d idx =
     (if \<forall>i \<in> set idx. row_in_range (length (rows d)) i
      then Inr (d\<lparr>rows := map (\<lambda>i. rows d ! row_number (length (rows d)) i) idx\<rparr>)
      else Inl NumpyIndexError)"

text \<open>
  The right-hand side of \<^verbatim>\<open>d[idx] = values\<close>, as far as the row axis goes: one value
  for every addressed row (a scalar or an array of the rows' shape, broadcast), or an
  array with a leading axis that runs over the addressed rows.
\<close>

datatype 'r rhs = Every 'r | PerRow "'r list"

definition broadcast_rows :: "'r rhs \<Rightarrow> nat \<Rightarrow> error + 'r list" where
  "broadcast_rows vals n =
     (case vals of
        Every r \<Rightarrow> Inr (replicate n r)
      | PerRow rs \<Rightarrow>
          if length rs = n then Inr rs
          else if length rs = 1 then Inr (replicate n (hd rs))
          else Inl NumpyValueError)"

text \<open>
  The writes of \<^verbatim>\<open>d[idx] = values\<close>, one row after the other in the order of \<open>idx\<close>: a
  later write wins. (The library does not promise an order for a row that \<open>idx\<close> names
  more than once.)
\<close>

fun write_rows :: "'r list \<Rightarrow> nat list \<Rightarrow> 'r list \<Rightarrow> 'r list" where
  "write_rows rs (i # idx) (v # vs) = write_rows (rs[i := v]) idx vs"
| "write_rows rs _ _ = rs"

text \<open>
  \<^verbatim>\<open>d[idx] = values\<close> for a one-dimensional integer array \<open>idx\<close>: values that cannot be
  broadcast to the addressed rows are a ValueError, and then a number out of range is an
  IndexError.
\<close>

definition put_rows :: "('d, 'r) row_array \<Rightarrow> int list \<Rightarrow> 'r rhs \<Rightarrow> error + ('d, 'r) row_array" where
  "put_rows d idx vals =
     (case broadcast_rows vals (length idx) of
        Inl e \<Rightarrow> Inl e
      | Inr vs \<Rightarrow>
          if \<forall>i \<in> set idx. row_in_range (length (rows d)) i
          then Inr (d\<lparr>rows := write_rows (rows d) (map (row_number (length (rows d))) idx) vs\<rparr>)
          else Inl NumpyIndexError)"

section \<open>The masked store \<^verbatim>\<open>ModelParams\<close>\<close>

text \<open>
  A store holds the index volume \<^verbatim>\<open>_imask\<close>, given by its values and by the layout of
  the array object, and the data \<^verbatim>\<open>_data\<close>.
\<close>

record ('d, 'r) ModelParams =
  imask :: "int ndarray"
  imask_layout :: layout
  data :: "('d, 'r) row_array"

text \<open>
  \<^verbatim>\<open>ModelParams.__init__(mask, data)\<close>:
  \<^verbatim>\<open>
    mask = mask.astype('bool')
    self._imask = np.zeros(mask.shape, 'int32')
    indexes =  mask[mask].cumsum()
    self._imask[mask] = indexes
    self._imask -= 1
    if data.shape[0] == indexes[-1]:
        self._data = data
    else:
        raise ValueError('the number of data elements does not match mask')
  \<close>
  The mask is boolean, so that
  \<^verbatim>\<open>mask.astype('bool')\<close> is the mask itself. The index volume is an \<^verbatim>\<open>int32\<close> array:
  the running counts are cast when they are stored in it, and the subtraction of one is
  done in \<^verbatim>\<open>int32\<close>. \<^verbatim>\<open>indexes[-1]\<close> is an IndexError on an empty array. The index
  volume is a new array, which \<^verbatim>\<open>np.zeros\<close> lays out in scan order.
\<close>

definition ModelParams_init ::
  "bool ndarray \<Rightarrow> ('d, 'r) row_array \<Rightarrow> error + ('d, 'r) ModelParams" where
  "ModelParams_init msk dat =
     (let imask0 = np_zeros (shape msk);
          indexes = np_cumsum (map (\<lambda>b. if b then 1 else 0) (bool_select (elems msk) (elems msk)));
          imask1 = put_masked (elems imask0) (elems msk) (map np_int32 indexes);
          imask2 = map (\<lambda>v. np_int32 (v - 1)) imask1
      in if indexes = [] then Inl NumpyIndexError
         else if int (length (rows dat)) = last indexes
         then Inr \<lparr>imask = \<lparr>shape = shape msk, elems = imask2\<rparr>,
                   imask_layout = Strided (c_strides (shape msk)), data = dat\<rparr>
         else Inl DataMaskMismatch)"

text \<open>The property \<^verbatim>\<open>mask\<close>: \<^verbatim>\<open>self._imask >= 0\<close>.\<close>

definition ModelParams_mask :: "('d, 'r) ModelParams \<Rightarrow> bool ndarray" where
  "ModelParams_mask s = \<lparr>shape = shape (imask s), elems = map (\<lambda>v. 0 \<le> v) (elems (imask s))\<rparr>"

definition ModelParams_dtype :: "('d, 'r) ModelParams \<Rightarrow> 'd" where
  "ModelParams_dtype s = dtype (data s)"

text \<open>
  The property \<^verbatim>\<open>shape\<close>. Setting it is the assignment \<^verbatim>\<open>self._imask.shape = value\<close>,
  which reshapes the index volume in place: a ValueError when the new shape has another
  number of elements, an AttributeError when the index volume is a view that does not lie
  in memory as the new shape needs it, and when it is an array scalar, which has no
  attribute to assign to.
\<close>

definition ModelParams_get_shape :: "('d, 'r) ModelParams \<Rightarrow> nat list" where
  "ModelParams_get_shape s = shape (imask s)"

definition ModelParams_set_shape ::
  "('d, 'r) ModelParams \<Rightarrow> int list \<Rightarrow> error + ('d, 'r) ModelParams" where
  "ModelParams_set_shape s new =
     (case imask_layout s of
        Scalar \<Rightarrow> Inl NumpyAttributeError
      | Strided st \<Rightarrow>
          (case np_reshape_inplace (shape (imask s)) st new of
             Inl e \<Rightarrow> Inl e
           | Inr (sh, st') \<Rightarrow>
               Inr (s\<lparr>imask := (imask s)\<lparr>shape := sh\<rparr>, imask_layout := Strided st'\<rparr>)))"

text \<open>\<^verbatim>\<open>self._imask[self.mask]\<close>: the non-negative entries of the index volume in scan order.\<close>

definition masked_rows :: "('d, 'r) ModelParams \<Rightarrow> int list" where
  "masked_rows s = bool_select (elems (imask s)) (elems (ModelParams_mask s))"

definition ModelParams_copy :: "('d, 'r) ModelParams \<Rightarrow> error + ('d, 'r) ModelParams" where
  "ModelParams_copy s =
     (case take_rows (data s) (masked_rows s) of
        Inl e \<Rightarrow> Inl e
      | Inr dat \<Rightarrow> ModelParams_init (ModelParams_mask s) dat)"

text \<open>
  \<^verbatim>\<open>__getitem__\<close>:
  \<^verbatim>\<open>
    new_mp = copy(self)
    new_mp._imask = self._imask[index]
    return new_mp
  \<close>
  a shallow copy of the store, which keeps the data array, with the indexed index volume;
  the index is handed to the array library as it is. The model is one of values: the view
  has the data of the store, and that the two share one array in memory is outside it.
\<close>

definition ModelParams_getitem ::
  "allocator \<Rightarrow> ('d, 'r) ModelParams \<Rightarrow> index list \<Rightarrow> error + ('d, 'r) ModelParams" where
  "ModelParams_getitem alloc s index =
     (case np_getitem (imask s) index of
        Inl e \<Rightarrow> Inl e
      | Inr sub \<Rightarrow>
          Inr (s\<lparr>imask := sub,
                 imask_layout :=
                   getitem_layout alloc (imask_layout s) (shape (imask s)) index (shape sub)\<rparr>))"

text \<open>
  \<^verbatim>\<open>__setitem__\<close>:
  \<^verbatim>\<open>
    imask = self._imask[index]
    self._data[imask[imask >= 0]] = values
  \<close>
  The values are assigned to the rows that the non-negative entries give, not to the
  indexed positions.
\<close>

definition ModelParams_setitem ::
  "('d, 'r) ModelParams \<Rightarrow> index list \<Rightarrow> 'r rhs \<Rightarrow> error + ('d, 'r) ModelParams" where
  "ModelParams_setitem s index vals =
     (case np_getitem (imask s) index of
        Inl e \<Rightarrow> Inl e
      | Inr sub \<Rightarrow>
          (case put_rows (data s) (bool_select (elems sub) (map (\<lambda>v. 0 \<le> v) (elems sub))) vals of
             Inl e \<Rightarrow> Inl e
           | Inr dat \<Rightarrow> Inr (s\<lparr>data := dat\<rparr>)))"

text \<open>
  \<^verbatim>\<open>__array__(dtype=None)\<close>. The comparison \<^verbatim>\<open>dtype == self.dtype\<close> and the cast
  \<^verbatim>\<open>astype(dtype)\<close> belong to the array library: they are the parameters \<open>dtype_eq\<close>
  and \<open>astype\<close>. An unspecified \<open>dtype\<close> is \<open>None\<close>.
\<close>

definition ModelParams_array ::
  "('d option \<Rightarrow> 'd \<Rightarrow> bool) \<Rightarrow> ('d option \<Rightarrow> ('d, 'r) row_array \<Rightarrow> error + ('d, 'r) row_array) \<Rightarrow>
   ('d, 'r) ModelParams \<Rightarrow> 'd option \<Rightarrow> error + ('d, 'r) row_array" where
  "ModelParams_array dtype_eq astype s dt =
     (if dtype_eq dt (ModelParams_dtype s) then take_rows (data s) (masked_rows s)
      else
        (case take_rows (data s) (masked_rows s) of
           Inl e \<Rightarrow> Inl e
         | Inr r \<Rightarrow> astype dt r))"

section \<open>Array arithmetic\<close>

text \<open>
  The signal, the coefficients and the matrices of the ODF model are arrays of floating
  point numbers. Their arithmetic is modelled on the real numbers: rounding, infinities
  and NaN are outside the model, shapes and the order of the operations are not.
\<close>

text \<open>
  The elements of an array of shape \<open>ss\<close> repeated to the shape \<open>ds\<close> of a broadcast;
  the two shapes have the same number of axes, and an axis of \<open>ss\<close> has the length of the
  axis of \<open>ds\<close> or the length one.
\<close>

fun broadcast_elems :: "nat list \<Rightarrow> nat list \<Rightarrow> 'a list \<Rightarrow> 'a list" where
  "broadcast_elems (d # ds) (s # ss) es =
     (if s = d
      then concat (map (\<lambda>i. broadcast_elems ds ss (take (prod_list ss) (drop (i * prod_list ss) es)))
                     [0..<d])
      else concat (replicate d (broadcast_elems ds ss es)))"
| "broadcast_elems ds ss es = es"

definition broadcast_to :: "nat list \<Rightarrow> 'a ndarray \<Rightarrow> 'a list" where
  "broadcast_to ds a =
     broadcast_elems ds (replicate (length ds - length (shape a)) 1 @ shape a) (elems a)"

text \<open>An elementwise operation \<^verbatim>\<open>a op b\<close> on two arrays, with broadcasting.\<close>

definition np_binop ::
  "('a \<Rightarrow> 'b \<Rightarrow> 'c) \<Rightarrow> 'a ndarray \<Rightarrow> 'b ndarray \<Rightarrow> error + 'c ndarray" where
  "np_binop f a b =
     (case broadcast_shape (shape a) (shape b) of
        Inl e \<Rightarrow> Inl e
      | Inr ds \<Rightarrow> Inr \<lparr>shape = ds, elems = map2 f (broadcast_to ds a) (broadcast_to ds b)\<rparr>)"

text \<open>
  The in-place operation \<^verbatim>\<open>a op= b\<close>: the broadcast must have the shape of \<open>a\<close>, or the
  result cannot be stored in \<open>a\<close>, which is a ValueError.
\<close>

definition np_inplace ::
  "('a \<Rightarrow> 'b \<Rightarrow> 'a) \<Rightarrow> 'a ndarray \<Rightarrow> 'b ndarray \<Rightarrow> error + 'a ndarray" where
  "np_inplace f a b =
     (case np_binop f a b of
        Inl e \<Rightarrow> Inl e
      | Inr c \<Rightarrow> if shape c = shape a then Inr c else Inl NumpyValueError)"

text \<open>The rows of an array along its last axis, in scan order.\<close>

definition last_rows :: "'a ndarray \<Rightarrow> 'a list list" where
  "last_rows a =
     map (\<lambda>i. take (last (shape a)) (drop (i * last (shape a)) (elems a)))
       [0..<prod_list (butlast (shape a))]"

text \<open>
  \<^verbatim>\<open>a[..., mask]\<close> for a one-dimensional boolean \<open>mask\<close>: the selection along the last
  axis. The mask must have the length of that axis, and the array an axis.
\<close>

definition np_bool_last :: "'a ndarray \<Rightarrow> bool list \<Rightarrow> error + 'a ndarray" where
  "np_bool_last a m =
     (if shape a = [] \<or> last (shape a) \<noteq> length m then Inl NumpyIndexError
      else Inr \<lparr>shape = butlast (shape a) @ [length (filter id m)],
                elems = concat (map (\<lambda>row. bool_select row m) (last_rows a))\<rparr>)"

text \<open>
  \<^verbatim>\<open>a[..., idx]\<close> for a one-dimensional integer array \<open>idx\<close>: the positions \<open>idx\<close> of
  the last axis, in the order of \<open>idx\<close>.
\<close>

definition np_take_last :: "'a ndarray \<Rightarrow> int list \<Rightarrow> error + 'a ndarray" where
  "np_take_last a idx =
     (if shape a = [] \<or> (\<exists>i \<in> set idx. \<not> row_in_range (last (shape a)) i) then Inl NumpyIndexError
      else Inr \<lparr>shape = butlast (shape a) @ [length idx],
                elems = concat (map (\<lambda>row. map (\<lambda>i. row ! row_number (last (shape a)) i) idx)
                                  (last_rows a))\<rparr>)"

text \<open>
  \<^verbatim>\<open>np.dot(a, b)\<close> for a matrix \<open>b\<close> and an array \<open>a\<close> with at least one axis: the sum
  over the last axis of \<open>a\<close> and the first of \<open>b\<close>, which must have the same length. The
  second argument is a matrix wherever the source calls \<^verbatim>\<open>np.dot\<close>; for an argument of
  another rank the model gives the ValueError of arguments that do not fit.
\<close>

definition np_dot :: "real ndarray \<Rightarrow> real ndarray \<Rightarrow> error + real ndarray" where
  "np_dot a b =
     (case shape b of
        [r, c] \<Rightarrow>
          if shape a = [] \<or> last (shape a) \<noteq> r then Inl NumpyValueError
          else Inr \<lparr>shape = butlast (shape a) @ [c],
                    elems = concat (map (\<lambda>row. map (\<lambda>j. (\<Sum>i \<leftarrow> [0..<r]. row ! i * elems b ! (i * c + j)))
                                                  [0..<c])
                                      (last_rows a))\<rparr>
      | _ \<Rightarrow> Inl NumpyValueError)"

text \<open>\<^verbatim>\<open>a.shape = sh\<close>: the elements stay, and their number must be the product of \<open>sh\<close>.\<close>

definition np_set_shape :: "'a ndarray \<Rightarrow> nat list \<Rightarrow> error + 'a ndarray" where
  "np_set_shape a sh =
     (if prod_list sh = length (elems a) then Inr (a\<lparr>shape := sh\<rparr>) else Inl NumpyValueError)"

section \<open>The numeric library\<close>

text \<open>
  The functions of NumPy and SciPy that the source calls and does not define are
  parameters of the model: the arc tangent of a quotient, the arc cosine and the square
  root (numbers go in, a floating point number comes out), the complex
  spherical harmonic \<^verbatim>\<open>scipy.special.sph_harm\<close>, the pseudo-inverse of a matrix (which
  can fail), the values of the Legendre polynomials \<open>P\<^sub>0, \<dots>, P\<^sub>n\<close> at a point (the first
  result of \<^verbatim>\<open>scipy.special.lpn\<close>) and the random permutation of \<open>0, \<dots>, n - 1\<close>.
\<close>

record numerics =
  np_arctan2 :: "real \<Rightarrow> real \<Rightarrow> real"
  np_arccos :: "real \<Rightarrow> real"
  np_sqrt :: "real \<Rightarrow> real"
  sp_sph_harm :: "int \<Rightarrow> int \<Rightarrow> real \<Rightarrow> real \<Rightarrow> complex"
  np_pinv :: "real ndarray \<Rightarrow> error + real ndarray"
  sp_lpn :: "int \<Rightarrow> real \<Rightarrow> real list"
  np_permutation :: "nat \<Rightarrow> int list"

text \<open>
  The calls of the numeric library are recorded in the order in which they are made:
  \<open>logged c r\<close> is the call \<open>c\<close> followed by the computation \<open>r\<close>.
\<close>

datatype call = Arctan2 | Arccos | RealSphHarm | Pinv | Lpn | Dot

definition logged :: "call \<Rightarrow> call list \<times> 'a \<Rightarrow> call list \<times> 'a" where
  "logged c r = (c # fst r, snd r)"

section \<open>The real spherical harmonics\<close>

text \<open>
  One value of \<^verbatim>\<open>real_sph_harm\<close>: the real part of the complex harmonic for \<open>m = 0\<close>,
  the real part times \<open>\<surd>2\<close> for \<open>m > 0\<close>, the imaginary part times \<open>\<surd>2\<close> for \<open>m < 0\<close>.
\<close>

definition real_harmonic :: "numerics \<Rightarrow> int \<Rightarrow> int \<Rightarrow> real \<Rightarrow> real \<Rightarrow> real" where
  "real_harmonic P m n theta phi =
     (let sh = sp_sph_harm P m n theta phi in
      if m = 0 then Re sh
      else if 0 < m then Re sh * np_sqrt P 2
      else Im sh * np_sqrt P 2)"

text \<open>
  \<^verbatim>\<open>real_sph_harm(m, n, theta, phi)\<close> as the source calls it: \<open>m\<close> and \<open>n\<close> are the
  columns of the index list (shape \<open>(k, 1)\<close>), \<open>theta\<close> and \<open>phi\<close> one-dimensional. The
  result is the matrix of shape \<open>(k, q)\<close>, where \<open>q\<close> is the broadcast of the lengths of
  \<open>theta\<close> and \<open>phi\<close>; lengths that do not broadcast are a ValueError.
\<close>

definition broadcast_nth :: "'a list \<Rightarrow> nat \<Rightarrow> 'a" where
  "broadcast_nth xs j = (if length xs = 1 then xs ! 0 else xs ! j)"

definition real_sph_harm ::
  "numerics \<Rightarrow> int list \<Rightarrow> int list \<Rightarrow> real list \<Rightarrow> real list \<Rightarrow> error + real ndarray" where
  "real_sph_harm P m_list n_list theta phi =
     (case broadcast_shape [length m_list, 1] [length theta] of
        Inl e \<Rightarrow> Inl e
      | Inr s1 \<Rightarrow>
          (case broadcast_shape s1 [length phi] of
             Inl e \<Rightarrow> Inl e
           | Inr s2 \<Rightarrow>
               Inr \<lparr>shape = s2,
                    elems = concat (map (\<lambda>(m, n).
                              map (\<lambda>j. real_harmonic P m n (broadcast_nth theta j) (broadcast_nth phi j))
                                [0..<last s2])
                              (zip m_list n_list))\<rparr>))"

section \<open>The model \<^verbatim>\<open>ODF\<close>\<close>

record ODF =
  sh_order :: int
  ngrad :: nat
  fit_matrix :: "real ndarray"
  b0 :: "real ndarray"
  coef :: "real ndarray"
  resid :: "real ndarray option"

text \<open>The properties \<^verbatim>\<open>shape\<close> and \<^verbatim>\<open>ndim\<close>.\<close>

definition ODF_shape :: "ODF \<Rightarrow> nat list" where
  "ODF_shape odf = butlast (shape (coef odf))"

definition ODF_ndim :: "ODF \<Rightarrow> int" where
  "ODF_ndim odf = int (length (shape (coef odf))) - 1"

text \<open>
  The subscript of \<^verbatim>\<open>odf[...]\<close>: a tuple of index entries, or one entry, which
  \<^verbatim>\<open>__getitem__\<close> makes a tuple of.
\<close>

datatype subscript = Single index | Tuple "index list"

definition as_tuple :: "subscript \<Rightarrow> index list" where
  "as_tuple sub = (case sub of Single i \<Rightarrow> [i] | Tuple items \<Rightarrow> items)"

text \<open>
  \<^verbatim>\<open>ODF.__getitem__\<close>:
  \<^verbatim>\<open>
    if type(index) != type(()):
        index = (index,)
    if len(index) > self.ndim:
        raise IndexError('invalid index')
    for ii in index[:]:
        if ii is Ellipsis:
            index = index + (slice(None),)
            break
    new_odf = copy(self)
    new_odf._coef = self._coef[index]
    if new_odf._resid is not None:
        new_odf._resid = self._resid[index]
    return new_odf
  \<close>
  The shallow copy keeps every other attribute of the model.
\<close>

definition ODF_getitem :: "ODF \<Rightarrow> subscript \<Rightarrow> error + ODF" where
  "ODF_getitem odf sub =
     (let index = as_tuple sub in
      if int (length index) > ODF_ndim odf then Inl InvalidIndex
      else
        let index' = (if Ellipsis \<in> set index then index @ [Slice None None None] else index) in
        case np_getitem (coef odf) index' of
          Inl e \<Rightarrow> Inl e
        | Inr c \<Rightarrow>
            (case resid odf of
               None \<Rightarrow> Inr (odf\<lparr>coef := c\<rparr>)
             | Some r \<Rightarrow>
                 (case np_getitem r index' of
                    Inl e \<Rightarrow> Inl e
                  | Inr r' \<Rightarrow> Inr (odf\<lparr>coef := c, resid := Some r'\<rparr>))))"

text \<open>
  \<^verbatim>\<open>grad_table[i, dwi]\<close>: the gradient table is a two-dimensional array, given as the
  list of its rows; the row \<open>i\<close> must exist and the mask must have its length.
\<close>

definition np_row_bool :: "real list list \<Rightarrow> nat \<Rightarrow> bool list \<Rightarrow> error + real list" where
  "np_row_bool g i m =
     (if i < length g \<and> length (g ! i) = length m then Inr (bool_select (g ! i) m)
      else Inl NumpyIndexError)"

text \<open>
  \<^verbatim>\<open>legendre0[n_list]\<close>: the entries of a one-dimensional array at the positions of the
  column \<open>n_list\<close>, as a column.
\<close>

definition np_take_column :: "real list \<Rightarrow> int list \<Rightarrow> error + real ndarray" where
  "np_take_column xs idx =
     (if \<forall>i \<in> set idx. row_in_range (length xs) i
      then Inr \<lparr>shape = [length idx, 1], elems = map (\<lambda>i. xs ! row_number (length xs) i) idx\<rparr>
      else Inl NumpyIndexError)"

text \<open>The transpose of a column.\<close>

definition column_T :: "real ndarray \<Rightarrow> real ndarray" where
  "column_T a = \<lparr>shape = rev (shape a), elems = elems a\<rparr>"

text \<open>
  The second half of \<^verbatim>\<open>ODF.__init__\<close>, from the basis matrix on:
  \<^verbatim>\<open>
    comp_mat = real_sph_harm(m_list, n_list, theta, phi)
    self.fit_matrix = np.linalg.pinv(comp_mat)
    legendre0, junk = lpn(self.sh_order, 0)
    funk_radon = legendre0[n_list]
    self.fit_matrix *= funk_radon.T
    self.b0 = data[..., np.logical_not(dwi)]
    self._coef = np.dot(data[..., dwi], self.fit_matrix)
    if keep_resid:
        unfit = comp_mat / funk_radon
        self._resid = data[..., dwi] - np.dot(self._coef, unfit)
    else:
        self._resid = None
  \<close>
\<close>

definition ODF_fit ::
  "numerics \<Rightarrow> real ndarray \<Rightarrow> int \<Rightarrow> nat \<Rightarrow> bool list \<Rightarrow> int list \<Rightarrow> int list \<Rightarrow>
   real list \<Rightarrow> real list \<Rightarrow> bool \<Rightarrow> call list \<times> (error + ODF)" where
  "ODF_fit P dat order n dwi m_list n_list theta phi keep_resid =
     logged RealSphHarm
       (case real_sph_harm P m_list n_list theta phi of
          Inl e \<Rightarrow> ([], Inl e)
        | Inr comp_mat \<Rightarrow>
     logged Pinv
       (case np_pinv P comp_mat of
          Inl e \<Rightarrow> ([], Inl e)
        | Inr fit0 \<Rightarrow>
     logged Lpn
       (case np_take_column (sp_lpn P order 0) n_list of
          Inl e \<Rightarrow> ([], Inl e)
        | Inr funk_radon \<Rightarrow>
       (case np_inplace (*) fit0 (column_T funk_radon) of
          Inl e \<Rightarrow> ([], Inl e)
        | Inr fit \<Rightarrow>
       (case np_bool_last dat (map Not dwi) of
          Inl e \<Rightarrow> ([], Inl e)
        | Inr b0_signal \<Rightarrow>
       (case np_bool_last dat dwi of
          Inl e \<Rightarrow> ([], Inl e)
        | Inr dw_signal \<Rightarrow>
     logged Dot
       (case np_dot dw_signal fit of
          Inl e \<Rightarrow> ([], Inl e)
        | Inr c \<Rightarrow>
            if keep_resid then
              (case np_binop (/) comp_mat funk_radon of
                 Inl e \<Rightarrow> ([], Inl e)
               | Inr unfit \<Rightarrow>
              (case np_bool_last dat dwi of
                 Inl e \<Rightarrow> ([], Inl e)
               | Inr dw_signal' \<Rightarrow>
            logged Dot
              (case np_dot c unfit of
                 Inl e \<Rightarrow> ([], Inl e)
               | Inr back \<Rightarrow>
              (case np_binop (-) dw_signal' back of
                 Inl e \<Rightarrow> ([], Inl e)
               | Inr r \<Rightarrow>
                   ([], Inr \<lparr>sh_order = order, ngrad = n, fit_matrix = fit, b0 = b0_signal,
                             coef = c, resid = Some r\<rparr>)))))
            else
              ([], Inr \<lparr>sh_order = order, ngrad = n, fit_matrix = fit, b0 = b0_signal,
                        coef = c, resid = None\<rparr>))))))))"

text \<open>
  \<^verbatim>\<open>ODF.__init__(data, sh_order, grad_table, b_values, keep_resid)\<close>, with the calls of
  the numeric library that it made:
  \<^verbatim>\<open>
    if (sh_order % 2 != 0 or sh_order < 0 ):
        raise ValueError('sh_order must be an even integer >= 0')
    self.sh_order = sh_order
    dwi = b_values > 0
    self.ngrad = dwi.sum()
    theta = np.arctan2(grad_table[1, dwi], grad_table[0, dwi])
    phi = np.arccos(grad_table[2, dwi])
    m_list, n_list = sph_harm_ind_list(self.sh_order)
    if m_list.size > self.ngrad:
        raise ValueError('sh_order seems too high, there are only '+
        str(self.ngrad)+' diffusion weighted images in data')
  \<close>
  and then the fit above.
\<close>

definition ODF_init ::
  "numerics \<Rightarrow> (nat \<Rightarrow> int) \<Rightarrow> real ndarray \<Rightarrow> int \<Rightarrow> real list list \<Rightarrow> real list \<Rightarrow> bool \<Rightarrow>
   call list \<times> (error + ODF)" where
  "ODF_init P garbage dat order grad_table b_values keep_resid =
     (if order mod 2 \<noteq> 0 \<or> order < 0 then ([], Inl ShOrderNotEven)
      else
        let dwi = map (\<lambda>b. 0 < b) b_values;
            n = length (filter id dwi)
        in
        case np_row_bool grad_table 1 dwi of
          Inl e \<Rightarrow> ([], Inl e)
        | Inr g1 \<Rightarrow>
        (case np_row_bool grad_table 0 dwi of
          Inl e \<Rightarrow> ([], Inl e)
        | Inr g0 \<Rightarrow>
        logged Arctan2
          (let theta = map2 (np_arctan2 P) g1 g0 in
           case np_row_bool grad_table 2 dwi of
             Inl e \<Rightarrow> ([], Inl e)
           | Inr g2 \<Rightarrow>
           logged Arccos
             (let phi = map (np_arccos P) g2 in
              case sph_harm_ind_list garbage order of
                Inl e \<Rightarrow> ([], Inl e)
              | Inr (m_list, n_list) \<Rightarrow>
                  if length m_list > n then ([], Inl (ShOrderTooHigh n))
                  else ODF_fit P dat order n dwi m_list n_list theta phi keep_resid))))"

text \<open>
  \<^verbatim>\<open>evaluate_at(theta_e, phi_e)\<close>:
  \<^verbatim>\<open>
    m_list, n_list = sph_harm_ind_list(self.sh_order)
    comp_mat = real_sph_harm(m_list, n_list, theta_e.flat[:], phi_e.flat[:])
    values = np.dot(self._coef, comp_mat)
    values.shape = self.shape + np.broadcast(theta_e,phi_e).shape
    return values
  \<close>
\<close>

definition evaluate_at ::
  "numerics \<Rightarrow> (nat \<Rightarrow> int) \<Rightarrow> ODF \<Rightarrow> real ndarray \<Rightarrow> real ndarray \<Rightarrow> error + real ndarray" where
  "evaluate_at P garbage odf theta_e phi_e =
     (case sph_harm_ind_list garbage (sh_order odf) of
        Inl e \<Rightarrow> Inl e
      | Inr (m_list, n_list) \<Rightarrow>
     (case real_sph_harm P m_list n_list (elems theta_e) (elems phi_e) of
        Inl e \<Rightarrow> Inl e
      | Inr comp_mat \<Rightarrow>
     (case np_dot (coef odf) comp_mat of
        Inl e \<Rightarrow> Inl e
      | Inr vals \<Rightarrow>
     (case broadcast_shape (shape theta_e) (shape phi_e) of
        Inl e \<Rightarrow> Inl e
      | Inr bs \<Rightarrow> np_set_shape vals (ODF_shape odf @ bs)))))"

text \<open>
  \<^verbatim>\<open>evaluate_boot(theta_e, phi_e, permute=None)\<close>:
  \<^verbatim>\<open>
    m_list, n_list = sph_harm_ind_list(self.sh_order)
    comp_mat = real_sph_harm(m_list, n_list, theta_e.flat[:], phi_e.flat[:])
    if permute == None:
        permute = np.random.permutation(self.ngrad)
    values = np.dot(self._coef + np.dot(self._resid[..., permute],
                    self.fit_matrix), comp_mat)
    return values
  \<close>
  Without residuals \<^verbatim>\<open>self._resid\<close> is \<^verbatim>\<open>None\<close>, and the subscript is a TypeError.
\<close>

definition evaluate_boot ::
  "numerics \<Rightarrow> (nat \<Rightarrow> int) \<Rightarrow> ODF \<Rightarrow> real ndarray \<Rightarrow> real ndarray \<Rightarrow> int list option \<Rightarrow>
   error + real ndarray" where
  "evaluate_boot P garbage odf theta_e phi_e permute =
     (case sph_harm_ind_list garbage (sh_order odf) of
        Inl e \<Rightarrow> Inl e
      | Inr (m_list, n_list) \<Rightarrow>
     (case real_sph_harm P m_list n_list (elems theta_e) (elems phi_e) of
        Inl e \<Rightarrow> Inl e
      | Inr comp_mat \<Rightarrow>
          let perm = (case permute of None \<Rightarrow> np_permutation P (ngrad odf) | Some p \<Rightarrow> p) in
          (case resid odf of
             None \<Rightarrow> Inl NoneNotSubscriptable
           | Some r \<Rightarrow>
          (case np_take_last r perm of
             Inl e \<Rightarrow> Inl e
           | Inr shuffled \<Rightarrow>
          (case np_dot shuffled (fit_matrix odf) of
             Inl e \<Rightarrow> Inl e
           | Inr delta \<Rightarrow>
          (case np_binop (+) (coef odf) delta of
             Inl e \<Rightarrow> Inl e
           | Inr boot \<Rightarrow>
          (case np_dot boot comp_mat of
             Inl e \<Rightarrow> Inl e
           | Inr vals \<Rightarrow> Inr vals)))))))"

section \<open>Notions used in the proofs\<close>

text \<open>The number of entries that the loop of \<^verbatim>\<open>sph_harm_ind_list\<close> writes for the degrees \<open>rs\<close>.\<close>

definition block_len :: "int list \<Rightarrow> nat" where
  "block_len rs = sum_list (map (\<lambda>r. nat (2 * r + 1)) rs)"

text \<open>The pairs of the index list for \<open>sh_order = 2 * k\<close>.\<close>

definition sh_pairs :: "nat \<Rightarrow> (int \<times> int) list" where
  "sh_pairs k = concat (map (\<lambda>n. map (\<lambda>m. (m, n)) [- n..n]) (map (\<lambda>i. 2 * int i) [0..<Suc k]))"

text \<open>A content of the memory that \<^verbatim>\<open>np.empty\<close> does not initialise.\<close>

definition stale_memory :: "nat \<Rightarrow> int" where
  "stale_memory i = 7"

text \<open>The index volume of a mask: the True positions numbered from \<open>k\<close> in scan order, \<open>-1\<close> elsewhere.\<close>

fun number_from :: "int \<Rightarrow> bool list \<Rightarrow> int list" where
  "number_from k [] = []"
| "number_from k (b # bs) = (if b then k # number_from (k + 1) bs else (- 1) # number_from k bs)"

text \<open>The number of True entries of a mask.\<close>

definition true_count :: "bool list \<Rightarrow> nat" where
  "true_count bs = length (filter id bs)"

text \<open>The entries of an index volume are \<open>-1\<close> or non-negative \<^verbatim>\<open>int32\<close> values.\<close>

definition int32_entries :: "int list \<Rightarrow> bool" where
  "int32_entries vs = (\<forall>v \<in> set vs. - 1 \<le> v \<and> v < 2 ^ 31)"

text \<open>
  The invariant of a constructed store: the non-negative entries of the index volume are,
  in scan order, the numbers of all the rows of the data.
\<close>

definition store_inv :: "('d, 'r) ModelParams \<Rightarrow> bool" where
  "store_inv s =
     (wf_array (imask s) \<and> int32_entries (elems (imask s)) \<and>
      filter (\<lambda>v. 0 \<le> v) (elems (imask s)) = map int [0..<length (rows (data s))])"

text \<open>
  The invariant of a view by an index without an array: the non-negative entries of the
  index volume are distinct row numbers of the data.
\<close>

definition view_inv :: "('d, 'r) ModelParams \<Rightarrow> bool" where
  "view_inv s =
     (wf_array (imask s) \<and> int32_entries (elems (imask s)) \<and>
      distinct (filter (\<lambda>v. 0 \<le> v) (elems (imask s))) \<and>
      (\<forall>v \<in> set (elems (imask s)). v < int (length (rows (data s)))))"

text \<open>
  What every store and every view keeps: the entries of the index volume are \<open>-1\<close> or
  row numbers of the data, which an index with an array of integers can repeat.
\<close>

definition rows_inv :: "('d, 'r) ModelParams \<Rightarrow> bool" where
  "rows_inv s =
     (wf_array (imask s) \<and> int32_entries (elems (imask s)) \<and>
      (\<forall>v \<in> set (elems (imask s)). v < int (length (rows (data s)))))"

text \<open>The index volume of the store is an array that lies in memory in scan order.\<close>

definition contiguous_store :: "('d, 'r) ModelParams \<Rightarrow> bool" where
  "contiguous_store s = (imask_layout s = Strided (c_strides (shape (imask s))))"

text \<open>An index without an array among its entries.\<close>

definition basic_index :: "index list \<Rightarrow> bool" where
  "basic_index index = (\<not> list_ex is_array index)"

text \<open>An allocator for the examples, which lays every new array out in scan order.\<close>

definition scan_order :: allocator where
  "scan_order l ds index rs = c_strides rs"

text \<open>
  A selector is sound when the positions that it holds lie in its block; the sizes of the
  blocks of the selectors of an index.
\<close>

definition selector_ok :: "selector \<Rightarrow> bool" where
  "selector_ok s =
     (case s of Fixed c D \<Rightarrow> c < D | Along js D \<Rightarrow> list_all (\<lambda>j. j < D) js | _ \<Rightarrow> True)"

definition block_sizes :: "selector list \<Rightarrow> nat list" where
  "block_sizes ss =
     concat (map (\<lambda>s. case s of Fixed c D \<Rightarrow> [D] | Along js D \<Rightarrow> [D]
                         | Picked sh cs D \<Rightarrow> [D] | _ \<Rightarrow> []) ss)"

text \<open>A comparison \<^verbatim>\<open>dtype == self.dtype\<close> for the examples: an unspecified \<open>dtype\<close> equals no element type.\<close>

definition dtype_eq_py :: "string option \<Rightarrow> string \<Rightarrow> bool" where
  "dtype_eq_py dt d = (dt = Some d)"

text \<open>A cast for the examples, which only changes the element type recorded in the array.\<close>

definition astype_relabel ::
  "string option \<Rightarrow> (string, 'r) row_array \<Rightarrow> error + (string, 'r) row_array" where
  "astype_relabel dt a = Inr (a\<lparr>dtype := (case dt of None \<Rightarrow> ''float64'' | Some d \<Rightarrow> d)\<rparr>)"

text \<open>
  A numeric library for the examples whose result does not depend on the numbers: every
  function is constant, and the pseudo-inverse fails.
\<close>

definition sample_numerics :: numerics where
  "sample_numerics =
     \<lparr>np_arctan2 = (\<lambda>y x. 0), np_arccos = (\<lambda>x. 0), np_sqrt = (\<lambda>x. 1),
      sp_sph_harm = (\<lambda>m n theta phi. 1),
      np_pinv = (\<lambda>a. Inl LinAlgError), sp_lpn = (\<lambda>n z. []),
      np_permutation = (\<lambda>n. map int [0..<n])\<rparr>"

section \<open>The index list: proofs\<close>

lemma np_arange_unit: "np_arange (- r) (r + 1) 1 = [- r..r]"
proof -
  have "map (\<lambda>i. - r + int i) [0..<nat (2 * r + 1)] = [- r..r]"
    by (rule nth_equalityI) auto
  then show ?thesis by (simp add: np_arange_def algebra_simps)
qed

lemma np_arange_even: "np_arange 0 (2 * int k + 1) 2 = map (\<lambda>i. 2 * int i) [0..<Suc k]"
proof -
  have "(2 * int k + 1 - 0 + 2 - 1) div 2 = int k + 1" by simp
  then have "nat ((2 * int k + 1 - 0 + 2 - 1) div 2) = Suc k" by simp
  then show ?thesis unfolding np_arange_def by (simp add: mult.commute)
qed


lemma fill_m_list_blocks:
  assumes "\<forall>r \<in> set rs. 0 \<le> r" "off + block_len rs \<le> length m"
  shows "fill_m_list rs m (int off) =
           Inr (take off m @ concat (map (\<lambda>r. [- r..r]) rs) @ drop (off + block_len rs) m)"
  using assms
proof (induction rs arbitrary: m off)
  case Nil
  then show ?case by (simp add: block_len_def)
next
  case (Cons r rs)
  let ?w = "nat (2 * r + 1)"
  have r0: "0 \<le> r" using Cons.prems(1) by simp
  have len: "off + ?w + block_len rs \<le> length m"
    using Cons.prems(2) by (simp add: block_len_def)
  have lw: "length [- r..r] = ?w" using r0 by simp
  have sl: "slice_bound (length m) (int off) = off"
    using len by (simp add: slice_bound_def)
  have sh: "slice_bound (length m) (int off + 2 * r + 1) = off + ?w"
    using len r0 by (simp add: slice_bound_def nat_add_distrib)
  have step: "set_slice m (int off) (int off + 2 * r + 1) (np_arange (- r) (r + 1) 1)
      = Inr (take off m @ [- r..r] @ drop (off + ?w) m)"
    unfolding set_slice_def np_arange_unit Let_def sl sh using lw by simp
  let ?m' = "take off m @ [- r..r] @ drop (off + ?w) m"
  have lm': "length ?m' = length m" using len lw by simp
  have off': "int off + 2 * r + 1 = int (off + ?w)" using r0 by simp
  have ih: "fill_m_list rs ?m' (int (off + ?w)) =
      Inr (take (off + ?w) ?m' @ concat (map (\<lambda>r. [- r..r]) rs) @ drop (off + ?w + block_len rs) ?m')"
    using Cons.IH[of "off + ?w" ?m'] Cons.prems(1) len lm' by simp
  have t: "take (off + ?w) ?m' = take off m @ [- r..r]"
    using len lw by simp
  have e: "off + ?w + block_len rs = off + block_len (r # rs)"
    by (simp add: block_len_def)
  have "drop (off + ?w + block_len rs) ?m' = drop (off + ?w + block_len rs) m"
    using len lw by (simp add: ac_simps)
  then have d: "drop (off + ?w + block_len rs) ?m' = drop (off + block_len (r # rs)) m"
    unfolding e .
  have "fill_m_list (r # rs) m (int off) = fill_m_list rs ?m' (int off + 2 * r + 1)"
    by (simp add: step)
  also have "\<dots> = Inr ((take off m @ [- r..r]) @ concat (map (\<lambda>r. [- r..r]) rs)
      @ drop (off + block_len (r # rs)) m)"
    unfolding off' ih t d ..
  finally show ?case by simp
qed

lemma np_repeat_map:
  assumes "\<forall>x \<in> set xs. 0 \<le> f x"
  shows "np_repeat xs (map f xs) = Inr (concat (map (\<lambda>x. replicate (nat (f x)) x) xs))"
proof -
  have "map (\<lambda>(x, c). replicate (nat c) x) (zip xs (map f xs)) = map (\<lambda>x. replicate (nat (f x)) x) xs"
    by (induction xs) auto
  then show ?thesis using assms by (auto simp: np_repeat_def)
qed

lemma block_len_evens: "block_len (map (\<lambda>i. 2 * int i) [0..<Suc k]) = (2 * k + 2) * (2 * k + 1) div 2"
proof (induction k)
  case 0
  then show ?case by (simp add: block_len_def)
next
  case (Suc k)
  have "block_len (map (\<lambda>i. 2 * int i) [0..<Suc (Suc k)])
      = block_len (map (\<lambda>i. 2 * int i) [0..<Suc k]) + nat (2 * (2 * int (Suc k)) + 1)"
    by (simp add: block_len_def)
  also have "\<dots> = (2 * k + 2) * (2 * k + 1) div 2 + (4 * k + 5)"
    unfolding Suc.IH by (simp add: nat_add_distrib nat_mult_distrib)
  also have "\<dots> = (2 * Suc k + 2) * (2 * Suc k + 1) div 2"
  proof -
    have a: "(2 * k + 2) * (2 * k + 1) = 2 * ((k + 1) * (2 * k + 1))"
      by (simp add: algebra_simps)
    have b: "(2 * Suc k + 2) * (2 * Suc k + 1) = 2 * ((k + 2) * (2 * k + 3))"
      by (simp add: algebra_simps)
    show ?thesis unfolding a b by (simp add: algebra_simps)
  qed
  finally show ?case .
qed

lemma sh_pairs_Suc:
  "sh_pairs (Suc k) = sh_pairs k @ map (\<lambda>m. (m, 2 * int (Suc k))) [- (2 * int (Suc k))..2 * int (Suc k)]"
  by (simp add: sh_pairs_def)

lemma set_sh_pairs:
  "set (sh_pairs k) = {(m, n). even n \<and> 0 \<le> n \<and> n \<le> 2 * int k \<and> - n \<le> m \<and> m \<le> n}"
proof (induction k)
  case 0
  then show ?case by (auto simp: sh_pairs_def)
next
  case (Suc k)
  have "{(m, n). even n \<and> 0 \<le> n \<and> n \<le> 2 * int (Suc k) \<and> - n \<le> m \<and> m \<le> n}
      = {(m, n). even n \<and> 0 \<le> n \<and> n \<le> 2 * int k \<and> - n \<le> m \<and> m \<le> n}
        \<union> (\<lambda>m. (m, 2 * int (Suc k))) ` {- (2 * int (Suc k))..2 * int (Suc k)}"
    (is "?L = ?A \<union> ?B")
  proof (rule set_eqI, clarify)
    fix m n :: int
    have "even n \<Longrightarrow> n \<le> 2 * int (Suc k) \<Longrightarrow> n \<le> 2 * int k \<or> n = 2 * int (Suc k)"
      by (elim evenE) auto
    then show "((m, n) \<in> ?L) = ((m, n) \<in> ?A \<union> ?B)" by auto
  qed
  then show ?case unfolding sh_pairs_Suc using Suc.IH by simp
qed

lemma sorted_sh_pairs:
  "sorted_wrt (\<lambda>(m, n) (m', n'). n < n' \<or> (n = n' \<and> m < m')) (sh_pairs k)"
proof (induction k)
  case 0
  then show ?case by (simp add: sh_pairs_def)
next
  case (Suc k)
  have blk: "sorted_wrt (\<lambda>(m, n) (m', n'). n < n' \<or> (n = n' \<and> m < m'))
      (map (\<lambda>m. (m, 2 * int (Suc k))) [- (2 * int (Suc k))..2 * int (Suc k)])"
    by (simp add: sorted_wrt_map del: of_nat_Suc)
  show ?case
    unfolding sh_pairs_Suc sorted_wrt_append
    using Suc.IH blk by (auto simp: set_sh_pairs)
qed

lemma ncoef_nat: "(2 * int k + 2) * (2 * int k + 1) div 2 = int ((2 * k + 2) * (2 * k + 1) div 2)"
proof -
  have "(2 * int k + 2) * (2 * int k + 1) = int ((2 * k + 2) * (2 * k + 1))"
    by (simp add: algebra_simps)
  then show ?thesis by (simp only: zdiv_int of_nat_numeral)
qed

lemma sph_harm_ind_list_even:
  "sph_harm_ind_list g (2 * int k) =
     Inr (map fst (sh_pairs k), map snd (sh_pairs k))"
proof -
  let ?rng = "map (\<lambda>i. 2 * int i) [0..<Suc k]"
  define nc where "nc = (2 * k + 2) * (2 * k + 1) div 2"
  have rng: "np_arange 0 (2 * int k + 1) 2 = ?rng" by (rule np_arange_even)
  have nonneg: "\<forall>r \<in> set ?rng. 0 \<le> r" by auto
  have rep: "np_repeat ?rng (map (\<lambda>n. n * 2 + 1) ?rng)
      = Inr (concat (map (\<lambda>n. replicate (nat (n * 2 + 1)) n) ?rng))"
    by (rule np_repeat_map) auto
  have nc: "(2 * int k + 2) * (2 * int k + 1) div 2 = int nc"
    unfolding nc_def by (rule ncoef_nat)
  have emp: "np_empty g (int nc) = Inr (map g [0..<nc])"
    by (simp add: np_empty_def)
  have bl: "block_len ?rng = nc"
    unfolding nc_def by (rule block_len_evens)
  have "fill_m_list ?rng (map g [0..<nc]) (int 0) =
      Inr (take 0 (map g [0..<nc]) @ concat (map (\<lambda>r. [- r..r]) ?rng)
        @ drop (0 + block_len ?rng) (map g [0..<nc]))"
    by (rule fill_m_list_blocks[OF nonneg]) (unfold bl, simp)
  then have fill: "fill_m_list ?rng (map g [0..<nc]) 0 = Inr (concat (map (\<lambda>r. [- r..r]) ?rng))"
    unfolding bl by simp
  have res: "sph_harm_ind_list g (2 * int k) =
      Inr (concat (map (\<lambda>r. [- r..r]) ?rng), concat (map (\<lambda>n. replicate (nat (n * 2 + 1)) n) ?rng))"
    by (simp only: sph_harm_ind_list_def Let_def rng rep nc emp sum.case fill) simp
  have m: "map fst (sh_pairs k) = concat (map (\<lambda>r. [- r..r]) ?rng)"
    unfolding sh_pairs_def by (simp add: map_concat comp_def)
  have n: "map snd (sh_pairs k) = concat (map (\<lambda>n. replicate (nat (n * 2 + 1)) n) ?rng)"
    unfolding sh_pairs_def by (simp add: map_concat comp_def map_replicate_const)
  show ?thesis unfolding res m n ..
qed

lemma length_sh_pairs: "length (sh_pairs k) = (2 * k + 2) * (2 * k + 1) div 2"
proof -
  have "length (sh_pairs k) = block_len (map (\<lambda>i. 2 * int i) [0..<Suc k])"
    unfolding sh_pairs_def block_len_def length_concat by (simp add: comp_def)
  then show ?thesis by (simp only: block_len_evens)
qed

text \<open>
  Claim C3. For every non-negative even \<open>order\<close> (the argument \<^verbatim>\<open>sh_order\<close>), \<^verbatim>\<open>sph_harm_ind_list\<close> returns
  exactly \<open>(order + 2) * (order + 1) / 2\<close> pairs \<open>(m, n)\<close>: the pairs of an
  even degree \<open>n\<close> in \<open>0..order\<close> with an order \<open>m\<close> in \<open>[-n, n]\<close>, each once, by
  increasing \<open>n\<close> and then increasing \<open>m\<close>, whatever the uninitialised memory held.
\<close>

theorem sph_harm_ind_list_pairs:
  assumes "0 \<le> order" and "even order"
  shows "\<exists>m_list n_list.
           sph_harm_ind_list garbage order = Inr (m_list, n_list)
         \<and> length m_list = nat ((order + 2) * (order + 1) div 2)
         \<and> length n_list = length m_list
         \<and> set (zip m_list n_list) =
               {(m, n). even n \<and> 0 \<le> n \<and> n \<le> order \<and> - n \<le> m \<and> m \<le> n}
         \<and> sorted_wrt (\<lambda>(m, n) (m', n'). n < n' \<or> (n = n' \<and> m < m')) (zip m_list n_list)"
proof -
  from assms obtain k where k: "order = 2 * int k"
    by (metis evenE nonneg_int_cases zero_le_mult_iff zero_le_numeral not_numeral_le_zero)
  have z: "zip (map fst (sh_pairs k)) (map snd (sh_pairs k)) = sh_pairs k"
    by (simp add: zip_map_fst_snd)
  have l: "nat ((order + 2) * (order + 1) div 2) = (2 * k + 2) * (2 * k + 1) div 2"
    unfolding k ncoef_nat by (rule nat_int)
  have "sph_harm_ind_list garbage order = Inr (map fst (sh_pairs k), map snd (sh_pairs k))
      \<and> length (map fst (sh_pairs k)) = nat ((order + 2) * (order + 1) div 2)
      \<and> length (map snd (sh_pairs k)) = length (map fst (sh_pairs k))
      \<and> set (zip (map fst (sh_pairs k)) (map snd (sh_pairs k))) =
            {(m, n). even n \<and> 0 \<le> n \<and> n \<le> order \<and> - n \<le> m \<and> m \<le> n}
      \<and> sorted_wrt (\<lambda>(m, n) (m', n'). n < n' \<or> (n = n' \<and> m < m'))
            (zip (map fst (sh_pairs k)) (map snd (sh_pairs k)))"
    unfolding l z
    using sph_harm_ind_list_even[of garbage k] length_sh_pairs[of k] set_sh_pairs[of k]
      sorted_sh_pairs[of k]
    by (simp add: k)
  then show ?thesis by blast
qed

theorem sph_harm_ind_list_pairs_witness:
  "sph_harm_ind_list stale_memory 2 = Inr ([0, - 2, - 1, 0, 1, 2], [0, 2, 2, 2, 2, 2])
   \<and> length [0, - 2, - 1, 0, 1, 2 :: int] = nat ((2 + 2) * (2 + 1) div 2)
   \<and> set (zip [0, - 2, - 1, 0, 1, 2] [0, 2, 2, 2, 2, 2]) =
         {(m, n). even n \<and> 0 \<le> n \<and> n \<le> (2 :: int) \<and> - n \<le> m \<and> m \<le> (n :: int)}"
proof -
  have ev: "sph_harm_ind_list stale_memory 2 = Inr ([0, - 2, - 1, 0, 1, 2], [0, 2, 2, 2, 2, 2])"
    unfolding stale_memory_def by code_simp
  have h1: "(0 :: int) \<le> 2" and h2: "even (2 :: int)" by simp_all
  from sph_harm_ind_list_pairs[OF h1 h2, of stale_memory] obtain m_list n_list where
    r: "sph_harm_ind_list stale_memory 2 = Inr (m_list, n_list)"
       "length m_list = nat ((2 + 2) * (2 + 1) div 2)"
       "set (zip m_list n_list) =
          {(m, n). even n \<and> 0 \<le> n \<and> n \<le> (2 :: int) \<and> - n \<le> m \<and> m \<le> (n :: int)}"
    by blast
  have m: "m_list = [0, - 2, - 1, 0, 1, 2]" and n: "n_list = [0, 2, 2, 2, 2, 2]"
    using r(1) ev by simp_all
  show ?thesis using ev r(2,3) unfolding m n by (intro conjI)
qed

lemma sph_harm_ind_list_odd: "odd order \<Longrightarrow> sph_harm_ind_list garbage order = Inl ShOrderNotEven"
  by (simp add: sph_harm_ind_list_def even_iff_mod_2_eq_zero)

text \<open>
  Claim C6, at \<open>order = -2\<close>: \<^verbatim>\<open>sph_harm_ind_list\<close> only tests \<^verbatim>\<open>sh_order % 2\<close>, so
  that a negative even order raises nothing and returns two empty columns, where the
  message of the function's own error and the test of \<^verbatim>\<open>ODF.__init__\<close> ask for an order
  that is not negative. An odd order raises the error, as the lemma before it shows.
\<close>

theorem sph_harm_ind_list_negative_even:
  "sph_harm_ind_list garbage (- 2) = Inr ([], [])"
  by (simp add: sph_harm_ind_list_def np_arange_def np_repeat_def np_empty_def)

section \<open>The constructor of the masked store: proofs\<close>

lemma bool_select_self: "bool_select bs bs = filter id bs"
  unfolding bool_select_def by (induction bs) auto

lemma np_int32_id: "- (2 ^ 31) \<le> v \<Longrightarrow> v < 2 ^ 31 \<Longrightarrow> np_int32 v = v"
  unfolding np_int32_def by simp

lemma np_int32_pred: "np_int32 (np_int32 v - 1) = np_int32 (v - 1)"
proof -
  have "(((v + 2 ^ 31) mod 2 ^ 32 - 2 ^ 31) - 1 + 2 ^ 31) mod 2 ^ 32 = (v - 1 + 2 ^ 31) mod (2 ^ 32 :: int)"
    by (simp add: mod_diff_left_eq algebra_simps) 
  then show ?thesis unfolding np_int32_def by simp
qed

lemma length_cumsum_from: "length (cumsum_from a xs) = length xs"
  by (induction xs arbitrary: a) auto

lemma last_cumsum_from: "xs \<noteq> [] \<Longrightarrow> last (cumsum_from a xs) = a + sum_list xs"
proof (induction xs arbitrary: a)
  case Nil
  then show ?case by simp
next
  case (Cons x xs)
  then show ?case by (cases xs) auto
qed

lemma sum_ones: "sum_list (map (\<lambda>b. if b then 1 else 0) (filter id bs)) = int (true_count bs)"
  unfolding true_count_def by (induction bs) auto

lemma index_volume_number_from:
  assumes "0 \<le> k" "k + int (true_count bs) \<le> 2 ^ 31"
  shows "map (\<lambda>v. np_int32 (v - 1))
           (put_masked (replicate (length bs) 0) bs
              (map np_int32 (cumsum_from k (map (\<lambda>b. if b then 1 else 0) (filter id bs)))))
         = number_from k bs"
  using assms
proof (induction bs arbitrary: k)
  case Nil
  then show ?case by simp
next
  case (Cons b bs)
  show ?case
  proof (cases b)
    case True
    have k1: "0 \<le> k + 1" "k + 1 + int (true_count bs) \<le> 2 ^ 31"
      using Cons.prems True by (auto simp: true_count_def)
    have "np_int32 (np_int32 (k + 1) - 1) = k"
      unfolding np_int32_pred using Cons.prems True
      by (simp add: np_int32_id true_count_def)
    then show ?thesis using True Cons.IH[OF k1] by simp
  next
    case False
    have k0: "0 \<le> k" "k + int (true_count bs) \<le> 2 ^ 31"
      using Cons.prems False by (auto simp: true_count_def)
    have "np_int32 (0 - 1) = - 1" by (simp add: np_int32_def)
    then show ?thesis using False Cons.IH[OF k0] by simp
  qed
qed

lemma length_number_from: "length (number_from k bs) = length bs"
  by (induction bs arbitrary: k) auto

lemma number_from_minus_one:
  "0 \<le> k \<Longrightarrow> i < length bs \<Longrightarrow> (number_from k bs ! i = - 1) = (\<not> bs ! i)"
proof (induction bs arbitrary: k i)
  case Nil
  then show ?case by simp
next
  case (Cons b bs)
  then show ?case by (cases i) auto
qed

lemma number_from_nonneg:
  "0 \<le> k \<Longrightarrow> filter (\<lambda>v. 0 \<le> v) (number_from k bs) = map (\<lambda>i. k + int i) [0..<true_count bs]"
proof (induction bs arbitrary: k)
  case Nil
  then show ?case by (simp add: true_count_def)
next
  case (Cons b bs)
  show ?case
  proof (cases b)
    case True
    have "map (\<lambda>i. k + int i) [0..<Suc (true_count bs)]
        = k # map (\<lambda>i. k + 1 + int i) [0..<true_count bs]"
      by (simp add: upt_conv_Cons map_Suc_upt[symmetric] del: upt_Suc)
    then show ?thesis using True Cons.IH[of "k + 1"] Cons.prems by (simp add: true_count_def)
  next
    case False
    then show ?thesis using Cons.IH[of k] Cons.prems by (simp add: true_count_def)
  qed
qed

lemma number_from_lower: "0 \<le> k \<Longrightarrow> v \<in> set (number_from k bs) \<Longrightarrow> - 1 \<le> v"
proof (induction bs arbitrary: k)
  case Nil
  then show ?case by simp
next
  case (Cons b bs)
  show ?case
  proof (cases b)
    case True
    then have "v = k \<or> v \<in> set (number_from (k + 1) bs)" using Cons.prems by simp
    then show ?thesis using Cons.IH[of "k + 1"] Cons.prems(1) by auto
  next
    case False
    then have "v = - 1 \<or> v \<in> set (number_from k bs)" using Cons.prems by simp
    then show ?thesis using Cons.IH[of k] Cons.prems(1) by auto
  qed
qed

lemma ModelParams_init_cases:
  assumes "wf_array msk"
  shows "ModelParams_init msk dat =
     (if true_count (elems msk) = 0 then Inl NumpyIndexError
      else if length (rows dat) = true_count (elems msk)
      then Inr \<lparr>imask = \<lparr>shape = shape msk,
                  elems = map (\<lambda>v. np_int32 (v - 1))
           (put_masked (replicate (length (elems msk)) 0) (elems msk)
              (map np_int32 (cumsum_from 0 (map (\<lambda>b. if b then 1 else 0) (filter id (elems msk))))))\<rparr>,
                 imask_layout = Strided (c_strides (shape msk)), data = dat\<rparr>
      else Inl DataMaskMismatch)"
proof -
  let ?ix = "cumsum_from 0 (map (\<lambda>b. if b then 1 else 0) (filter id (elems msk)))"
  have e: "(?ix = []) = (true_count (elems msk) = 0)"
    using length_cumsum_from[of 0 "map (\<lambda>b. if b then 1 else 0) (filter id (elems msk))"]
    by (metis length_0_conv length_map true_count_def)
  have l: "true_count (elems msk) \<noteq> 0 \<Longrightarrow> last ?ix = int (true_count (elems msk))"
    using last_cumsum_from[of "map (\<lambda>b. if b then 1 else 0) (filter id (elems msk))" 0]
    by (simp add: sum_ones true_count_def)
  have z: "elems (np_zeros (shape msk)) = replicate (length (elems msk)) 0"
    using assms by (simp add: np_zeros_def wf_array_def)
  show ?thesis
    unfolding ModelParams_init_def Let_def bool_select_self np_cumsum_def z e
    using l by simp
qed

lemma number_from_upper:
  assumes "0 \<le> k" "v \<in> set (number_from k bs)"
  shows "v < k + int (true_count bs)"
proof (cases "0 \<le> v")
  case True
  then have "v \<in> set (filter (\<lambda>v. 0 \<le> v) (number_from k bs))" using assms(2) by simp
  then show ?thesis unfolding number_from_nonneg[OF assms(1)] by auto
next
  case False
  then show ?thesis using assms(1) by linarith
qed

lemma ModelParams_init_ok:
  assumes "wf_array msk" "0 < true_count (elems msk)" "int (true_count (elems msk)) \<le> 2 ^ 31"
    and "length (rows dat) = true_count (elems msk)"
  shows "ModelParams_init msk dat =
           Inr \<lparr>imask = \<lparr>shape = shape msk, elems = number_from 0 (elems msk)\<rparr>,
                 imask_layout = Strided (c_strides (shape msk)), data = dat\<rparr>"
proof -
  have "map (\<lambda>v. np_int32 (v - 1))
           (put_masked (replicate (length (elems msk)) 0) (elems msk)
              (map np_int32 (cumsum_from 0 (map (\<lambda>b. if b then 1 else 0) (filter id (elems msk))))))
         = number_from 0 (elems msk)"
    by (rule index_volume_number_from) (use assms(3) in auto)
  then show ?thesis
    unfolding ModelParams_init_cases[OF assms(1)] using assms(2,4) by simp
qed

lemma store_inv_number_from:
  assumes "wf_array msk" "int (true_count (elems msk)) \<le> 2 ^ 31"
    and "length (rows dat) = true_count (elems msk)"
  shows "store_inv \<lparr>imask = \<lparr>shape = shape msk, elems = number_from 0 (elems msk)\<rparr>,
                    imask_layout = l, data = dat\<rparr>"
proof -
  have "- 1 \<le> v \<and> v < 2 ^ 31" if "v \<in> set (number_from 0 (elems msk))" for v
    using number_from_lower[of 0 v "elems msk"] number_from_upper[of 0 v "elems msk"] that assms(2)
    by auto
  moreover have "filter (\<lambda>v. 0 \<le> v) (number_from 0 (elems msk)) = map int [0..<length (rows dat)]"
    using number_from_nonneg[of 0 "elems msk"] assms(3) by simp
  ultimately show ?thesis
    using assms(1) by (simp add: store_inv_def int32_entries_def wf_array_def length_number_from)
qed

section \<open>Indexing: proofs\<close>

lemma mult_le_of_le_div:
  fixes q s :: int
  assumes "0 < s" "int i \<le> q div s"
  shows "int i * s \<le> q"
proof -
  have "int i * s \<le> (q div s) * s" using assms by (simp add: mult_right_mono)
  also have "\<dots> \<le> q"
  proof -
    have "(q div s) * s + q mod s = q" by simp
    moreover have "0 \<le> q mod s" using assms(1) by simp
    ultimately show ?thesis by linarith
  qed
  finally show ?thesis .
qed

lemma slice_range_props:
  assumes "slice_range start stop step d = Inr js"
  shows "distinct js \<and> (\<forall>j \<in> set js. j < d)"
proof -
  define s where "s = (case step of None \<Rightarrow> 1 | Some s \<Rightarrow> s)"
  define lower where "lower = (if s < 0 then - 1 else (0::int))"
  define upper where "upper = (if s < 0 then int d - 1 else int d)"
  define clip where "clip = (\<lambda>i. if i < 0 then max (i + int d) lower else min i upper)"
  define b where "b = (case start of None \<Rightarrow> (if s < 0 then upper else lower) | Some i \<Rightarrow> clip i)"
  define e where "e = (case stop of None \<Rightarrow> (if s < 0 then lower else upper) | Some i \<Rightarrow> clip i)"
  define len where "len = (if 0 < s then (if b < e then (e - b - 1) div s + 1 else 0)
                   else (if e < b then (b - e - 1) div (- s) + 1 else 0))"
  have s0: "s \<noteq> 0"
    using assms unfolding slice_range_def s_def by (auto simp: Let_def split: if_splits)
  have js: "js = map (\<lambda>i. nat (b + int i * s)) [0..<nat len]"
    using assms s0 unfolding slice_range_def Let_def
      s_def[symmetric] lower_def[symmetric] upper_def[symmetric] clip_def[symmetric]
      b_def[symmetric] e_def[symmetric] len_def[symmetric]
    by simp
  have clip: "lower \<le> clip i \<and> clip i \<le> upper" for i
    unfolding clip_def lower_def upper_def by auto
  have lu: "lower \<le> upper" unfolding lower_def upper_def by auto
  have bb: "lower \<le> b \<and> b \<le> upper"
    unfolding b_def using clip lu by (auto split: option.splits)
  have ee: "lower \<le> e \<and> e \<le> upper"
    unfolding e_def using clip lu by (auto split: option.splits)
  have rng: "0 \<le> b + int i * s \<and> b + int i * s < int d" if i: "int i < len" for i
  proof (cases "0 < s")
    case True
    then have lt: "b < e" and le: "int i \<le> (e - b - 1) div s"
      using i unfolding len_def by (auto split: if_splits)
    have "int i * s \<le> e - b - 1" using mult_le_of_le_div[OF True le] .
    moreover have "0 \<le> int i * s" using True by simp
    moreover have "0 \<le> b" "e \<le> int d"
      using bb ee True unfolding lower_def upper_def by auto
    ultimately show ?thesis by linarith
  next
    case False
    then have neg: "0 < - s" using s0 by simp
    have lt: "e < b" and le: "int i \<le> (b - e - 1) div (- s)"
      using i False unfolding len_def by (auto split: if_splits)
    have "int i * (- s) \<le> b - e - 1" using mult_le_of_le_div[OF neg le] .
    moreover have "0 \<le> int i * (- s)" using neg by (intro mult_nonneg_nonneg) auto
    moreover have "- 1 \<le> e" "b \<le> int d - 1"
      using bb ee neg unfolding lower_def upper_def by auto
    ultimately show ?thesis by (simp add: algebra_simps)
  qed
  have inj: "inj_on (\<lambda>i. nat (b + int i * s)) {0..<nat len}"
  proof (rule inj_onI)
    fix x y assume x: "x \<in> {0..<nat len}" and y: "y \<in> {0..<nat len}"
      and eq: "nat (b + int x * s) = nat (b + int y * s)"
    have "0 \<le> b + int x * s" "0 \<le> b + int y * s" using rng x y by auto
    then have "b + int x * s = b + int y * s" using eq by linarith
    then show "x = y" using s0 by simp
  qed
  have d: "distinct js" unfolding js by (simp add: distinct_map inj)
  have "nat (b + int i * s) < d" if "i < nat len" for i
  proof -
    have "int i < len" using that by linarith
    then show ?thesis using rng[of i] by linarith
  qed
  then have "\<forall>j \<in> set js. j < d" unfolding js by auto
  then show ?thesis using d by simp
qed

lemma offset_bound:
  fixes j P off d :: nat
  assumes "j < d" "off < P"
  shows "j * P + off < d * P"
proof -
  have "j * P + off < Suc j * P" using assms(2) by simp
  also have "\<dots> \<le> d * P" using assms(1) by (simp add: Suc_leI mult_le_mono1 del: mult_Suc)
  finally show ?thesis .
qed

lemma offset_inj:
  fixes j j' P off off' :: nat
  assumes "off < P" "off' < P" "j * P + off = j' * P + off'"
  shows "j = j' \<and> off = off'"
proof -
  have P: "P \<noteq> 0" using assms(1) by auto
  have "(j * P + off) div P = j" "(j' * P + off') div P = j'"
    using assms(1,2) P by simp_all
  then have "j = j'" using assms(3) by simp
  then show ?thesis using assms(3) by simp
qed

lemma index_offsets_props:
  "index_offsets ds items = Inr (sh, offs) \<Longrightarrow>
     distinct offs \<and> (\<forall>off \<in> set offs. off < prod_list ds)"
proof (induction ds items arbitrary: sh offs rule: index_offsets.induct)
  case (1 ds)
  then show ?case by auto
next
  case (2 ds items)
  then show ?case by (auto split: sum.splits prod.splits)
next
  case (3 ds items)
  then show ?case by simp
next
  case (4 i items)
  then show ?case by simp
next
  case (5 start stop step items)
  then show ?case by simp
next
  case (6 d ds i items)
  from "6.prems" obtain sh' offs' where
    r: "- int d \<le> i" "i < int d" "index_offsets ds items = Inr (sh', offs')"
    and o: "offs = map (\<lambda>off. nat (i mod int d) * prod_list ds + off) offs'"
    by (auto split: sum.splits prod.splits if_splits)
  have ih: "distinct offs'" "\<forall>off \<in> set offs'. off < prod_list ds"
    using "6.IH"[OF _ r(3)] r by auto
  have dpos: "0 < int d" using r by linarith
  have c: "nat (i mod int d) < d" using dpos by (simp add: nat_less_iff)
  have "distinct offs" unfolding o using ih(1) by (simp add: distinct_map inj_on_def)
  moreover have "\<forall>off \<in> set offs. off < prod_list (d # ds)"
    unfolding o using ih(2) offset_bound[OF c] by auto
  ultimately show ?case by simp
next
  case (7 d ds start stop step items)
  from "7.prems" obtain js sh' offs' where
    r: "slice_range start stop step d = Inr js" "index_offsets ds items = Inr (sh', offs')"
    and o: "offs = concat (map (\<lambda>j. map (\<lambda>off. j * prod_list ds + off) offs') js)"
    by (auto split: sum.splits prod.splits)
  have ih: "distinct offs'" "\<forall>off \<in> set offs'. off < prod_list ds"
    using "7.IH"[OF r(1) r(2)] by auto
  have sp: "distinct js" "\<forall>j \<in> set js. j < d" using slice_range_props[OF r(1)] by auto
  have pr: "offs = map (\<lambda>(j, off). j * prod_list ds + off) (List.product js offs')"
    unfolding o by (induction js) (auto simp: comp_def)
  have "inj_on (\<lambda>(j, off). j * prod_list ds + off) (set (List.product js offs'))"
    using ih(2) by (auto simp: inj_on_def dest: offset_inj)
  then have "distinct offs" unfolding pr using sp(1) ih(1)
    by (simp add: distinct_map distinct_product)
  moreover have "\<forall>off \<in> set offs. off < prod_list (d # ds)"
    unfolding pr using sp(2) ih(2) by (auto intro: offset_bound)
  ultimately show ?case by simp
qed simp_all

lemma index_offsets_length:
  "index_offsets ds items = Inr (sh, offs) \<Longrightarrow> length offs = prod_list sh"
proof (induction ds items arbitrary: sh offs rule: index_offsets.induct)
  case (7 d ds start stop step items)
  from "7.prems" obtain js sh' offs' where
    r: "slice_range start stop step d = Inr js" "index_offsets ds items = Inr (sh', offs')"
    and o: "offs = concat (map (\<lambda>j. map (\<lambda>off. j * prod_list ds + off) offs') js)"
    and s: "sh = length js # sh'"
    by (auto split: sum.splits prod.splits)
  have ih: "length offs' = prod_list sh'" using "7.IH"[OF r(1) r(2)] .
  have "length offs = length js * length offs'"
    unfolding o by (induction js) auto
  then show ?case unfolding s ih by simp
qed (auto split: sum.splits prod.splits if_splits)

lemma length_multi_indices: "length (multi_indices sh) = prod_list sh"
  by (induction sh) (simp_all add: length_concat comp_def sum_list_triv)

lemma multi_indices_valid: "r \<in> set (multi_indices sh) \<Longrightarrow> list_all2 (<) r sh"
  by (induction sh arbitrary: r) auto

lemma prod_list_pos: "0 \<notin> set ds \<Longrightarrow> 0 < prod_list (ds :: nat list)"
  by (induction ds) auto

lemma bravel_bound: "0 \<notin> set sh \<Longrightarrow> bravel sh cs < prod_list sh"
proof (induction sh cs rule: bravel.induct)
  case (1 d ds c cs)
  have d: "0 < d" using "1.prems" by simp
  have "bravel ds cs < prod_list ds" using 1 by simp
  then have "(c mod d) * prod_list ds + bravel ds cs < d * prod_list ds"
    using d by (intro offset_bound) simp_all
  then show ?case by simp
qed (simp_all add: prod_list_pos)

lemma broadcast_rev_zero:
  "broadcast_rev xs ys = Inr zs \<Longrightarrow> 0 \<in> set xs \<or> 0 \<in> set ys \<Longrightarrow> 0 \<in> set zs"
  by (induction xs ys arbitrary: zs rule: broadcast_rev.induct) (auto split: if_splits sum.splits)

lemma broadcast_shape_zero:
  "broadcast_shape xs ys = Inr zs \<Longrightarrow> 0 \<in> set xs \<or> 0 \<in> set ys \<Longrightarrow> 0 \<in> set zs"
  unfolding broadcast_shape_def using broadcast_rev_zero[of "rev xs" "rev ys"]
  by (auto split: sum.splits)

lemma broadcast_all_zero:
  "broadcast_all shs = Inr b \<Longrightarrow> sh \<in> set shs \<Longrightarrow> 0 \<in> set sh \<Longrightarrow> 0 \<in> set b"
proof (induction shs arbitrary: b)
  case Nil
  then show ?case by simp
next
  case (Cons x shs)
  from Cons.prems(1) obtain b' where b': "broadcast_all shs = Inr b'" "broadcast_shape x b' = Inr b"
    by (auto split: sum.splits)
  show ?case
  proof (cases "sh = x")
    case True
    then show ?thesis using broadcast_shape_zero[OF b'(2)] Cons.prems(3) by simp
  next
    case False
    then have "0 \<in> set b'" using Cons.IH[OF b'(1)] Cons.prems(2,3) by simp
    then show ?thesis using broadcast_shape_zero[OF b'(2)] by simp
  qed
qed

lemma ravel_blocks_bound:
  "\<forall>(c, D) \<in> set xs. c < D \<Longrightarrow> ravel_blocks xs < prod_list (map snd xs)"
proof (induction xs rule: ravel_blocks.induct)
  case 1
  then show ?case by simp
next
  case (2 c D rest)
  have "ravel_blocks rest < prod_list (map snd rest)" using 2 by simp
  moreover have "c < D" using "2.prems" by simp
  ultimately have "c * prod_list (map snd rest) + ravel_blocks rest < D * prod_list (map snd rest)"
    by (intro offset_bound)
  then show ?case by simp
qed

lemma selector_ok_simps:
  "selector_ok (Fixed c D) = (c < D)"
  "selector_ok (Along js D) = list_all (\<lambda>j. j < D) js"
  "selector_ok (Picked sh cs D)"
  "selector_ok New"
  "selector_ok Gap"
  by (simp_all add: selector_ok_def)

lemma picked_in_range_simps:
  "picked_in_range (Picked sh cs D) =
     list_all (\<lambda>p. - int D \<le> cs ! p \<and> cs ! p < int D) [0..<prod_list sh]"
  "picked_in_range (Fixed c D)"
  "picked_in_range (Along js D)"
  "picked_in_range New"
  "picked_in_range Gap"
  by (simp_all add: picked_in_range_def)

lemma block_sizes_kept: "block_sizes (map (\<lambda>d. Along [0..<d] d) ds) = ds"
  by (induction ds) (simp_all add: block_sizes_def)

lemma selector_ok_kept: "list_all selector_ok (map (\<lambda>d. Along [0..<d] d) ds)"
  by (induction ds) (simp_all add: selector_ok_simps list_all_iff)

lemma block_sizes_append: "block_sizes (xs @ ys) = block_sizes xs @ block_sizes ys"
  by (simp add: block_sizes_def)

lemma block_sizes_Cons:
  "block_sizes (s # ss) =
     (case s of Fixed c D \<Rightarrow> [D] | Along js D \<Rightarrow> [D] | Picked sh cs D \<Rightarrow> [D] | _ \<Rightarrow> []) @ block_sizes ss"
  by (simp add: block_sizes_def)

lemma prod_take_drop: "prod_list (take k ds) * prod_list (drop k ds) = prod_list (ds :: nat list)"
  using prod_list.append[of "take k ds" "drop k ds"] by simp

lemma selectors_sound:
  "selectors ds items = Inr ss \<Longrightarrow>
     list_all selector_ok ss \<and> prod_list (block_sizes ss) = prod_list ds"
proof (induction ds items arbitrary: ss rule: selectors.induct)
  case (1 ds)
  then show ?case using selector_ok_kept[of ds] by (auto simp: block_sizes_kept)
next
  case (2 ds items)
  then show ?case by (auto split: sum.splits simp: block_sizes_Cons selector_ok_simps)
next
  case (3 ds items)
  let ?k = "length ds - sum_list (map consumed items)"
  from "3.prems" obtain ss' where
    s: "selectors (drop ?k ds) items = Inr ss'"
    and e: "ss = Gap # map (\<lambda>d. Along [0..<d] d) (take ?k ds) @ ss'"
    by (auto split: sum.splits)
  have ih: "list_all selector_ok ss'" "prod_list (block_sizes ss') = prod_list (drop ?k ds)"
    using "3.IH"[OF s] by auto
  have "list_all selector_ok ss"
    unfolding e using ih(1) selector_ok_kept[of "take ?k ds"] by (simp add: selector_ok_simps)
  moreover have "prod_list (block_sizes ss) = prod_list ds"
    unfolding e using ih(2) prod_take_drop[of ?k ds]
    by (simp add: block_sizes_Cons block_sizes_append block_sizes_kept)
  ultimately show ?case by simp
next
  case (4 ds i items)
  from "4.prems" obtain d ds' ss' where
    d: "ds = d # ds'" and r: "- int d \<le> i" "i < int d"
    and s: "selectors ds' items = Inr ss'" and e: "ss = Fixed (nat (i mod int d)) d # ss'"
    by (auto split: list.splits if_splits sum.splits)
  have ih: "list_all selector_ok ss'" "prod_list (block_sizes ss') = prod_list ds'"
    using "4.IH"[OF d _ s] r by auto
  have dpos: "0 < int d" using r by linarith
  have c: "nat (i mod int d) < d" using dpos by (simp add: nat_less_iff)
  show ?case unfolding e d using ih c by (simp add: block_sizes_Cons selector_ok_simps)
next
  case (5 ds start stop step items)
  from "5.prems" obtain d ds' js ss' where
    d: "ds = d # ds'" and r: "slice_range start stop step d = Inr js"
    and s: "selectors ds' items = Inr ss'" and e: "ss = Along js d # ss'"
    by (auto split: list.splits sum.splits)
  have ih: "list_all selector_ok ss'" "prod_list (block_sizes ss') = prod_list ds'"
    using "5.IH"[OF d r s] by auto
  have "\<forall>j \<in> set js. j < d" using slice_range_props[OF r] by simp
  then show ?case unfolding e d using ih by (simp add: block_sizes_Cons selector_ok_simps list_all_iff)
next
  case (6 ds a items)
  from "6.prems" obtain d ds' ss' where
    d: "ds = d # ds'" and s: "selectors ds' items = Inr ss'"
    and e: "ss = Picked (shape a) (elems a) d # ss'"
    by (auto split: list.splits sum.splits)
  have ih: "list_all selector_ok ss'" "prod_list (block_sizes ss') = prod_list ds'"
    using "6.IH"[OF d s] by auto
  show ?case unfolding e d using ih by (simp add: block_sizes_Cons selector_ok_simps)
next
  case (7 ds b items)
  let ?k = "length (shape b)"
  from "7.prems" obtain ss' sh cs where
    s: "selectors (drop ?k ds) items = Inr ss'"
    and e: "ss = Picked sh cs (prod_list (take ?k ds)) # ss'"
    by (auto split: sum.splits)
  have ih: "list_all selector_ok ss'" "prod_list (block_sizes ss') = prod_list (drop ?k ds)"
    using "7.IH"[OF s] by auto
  show ?case unfolding e using ih prod_take_drop[of ?k ds]
    by (simp add: block_sizes_Cons selector_ok_simps)
qed

lemma basic_dims_Cons:
  "basic_dims (s # ss) = (case s of Along js D \<Rightarrow> [length js] | New \<Rightarrow> [1] | _ \<Rightarrow> []) @ basic_dims ss"
  by (simp add: basic_dims_def)

lemma basic_dims_append: "basic_dims (xs @ ys) = basic_dims xs @ basic_dims ys"
  by (simp add: basic_dims_def)

lemma picked_shapes_Cons:
  "picked_shapes (s # ss) = (case s of Picked sh cs D \<Rightarrow> [sh] | _ \<Rightarrow> []) @ picked_shapes ss"
  by (simp add: picked_shapes_def)

lemma digits_sound:
  assumes "list_all selector_ok ss" "list_all picked_in_range ss"
    and "\<forall>sh \<in> set (picked_shapes ss). 0 \<notin> set sh"
    and "list_all2 (<) bs (basic_dims ss)"
  shows "map snd (digits ss bs bc) = block_sizes ss \<and> (\<forall>(c, D) \<in> set (digits ss bs bc). c < D)"
  using assms
proof (induction ss arbitrary: bs)
  case Nil
  then show ?case by (simp add: block_sizes_def)
next
  case (Cons s ss)
  have ok: "list_all selector_ok ss" "list_all picked_in_range ss"
    using Cons.prems(1,2) by simp_all
  show ?case
  proof (cases s)
    case (Fixed c D)
    have "\<forall>sh \<in> set (picked_shapes ss). 0 \<notin> set sh"
      using Cons.prems(3) Fixed by (simp add: picked_shapes_Cons)
    moreover have "list_all2 (<) bs (basic_dims ss)"
      using Cons.prems(4) Fixed by (simp add: basic_dims_Cons)
    ultimately have ih: "map snd (digits ss bs bc) = block_sizes ss"
      "\<forall>(c, D) \<in> set (digits ss bs bc). c < D"
      using Cons.IH[OF ok] by auto
    have "c < D" using Cons.prems(1) Fixed by (simp add: selector_ok_simps)
    then show ?thesis using ih Fixed by (simp add: block_sizes_Cons)
  next
    case (Along js D)
    from Cons.prems(4) Along obtain b bs' where
      b: "bs = b # bs'" "b < length js" "list_all2 (<) bs' (basic_dims ss)"
      by (auto simp: basic_dims_Cons list_all2_Cons2)
    have "\<forall>sh \<in> set (picked_shapes ss). 0 \<notin> set sh"
      using Cons.prems(3) Along by (simp add: picked_shapes_Cons)
    then have ih: "map snd (digits ss bs' bc) = block_sizes ss"
      "\<forall>(c, D) \<in> set (digits ss bs' bc). c < D"
      using Cons.IH[OF ok _ b(3)] by auto
    have "list_all (\<lambda>j. j < D) js" using Cons.prems(1) Along by (simp add: selector_ok_simps)
    then have "js ! b < D" using b(2) by (simp add: list_all_length)
    then show ?thesis using ih Along b(1) by (simp add: block_sizes_Cons)
  next
    case (Picked sh cs D)
    have z: "0 \<notin> set sh" using Cons.prems(3) Picked by (simp add: picked_shapes_Cons)
    have "\<forall>sh \<in> set (picked_shapes ss). 0 \<notin> set sh"
      using Cons.prems(3) Picked by (simp add: picked_shapes_Cons)
    moreover have "list_all2 (<) bs (basic_dims ss)"
      using Cons.prems(4) Picked by (simp add: basic_dims_Cons)
    ultimately have ih: "map snd (digits ss bs bc) = block_sizes ss"
      "\<forall>(c, D) \<in> set (digits ss bs bc). c < D"
      using Cons.IH[OF ok] by auto
    let ?p = "bravel sh (drop (length bc - length sh) bc)"
    have p: "?p < prod_list sh" using z by (rule bravel_bound)
    have "- int D \<le> cs ! ?p \<and> cs ! ?p < int D"
      using Cons.prems(2) Picked p by (simp add: picked_in_range_simps list_all_iff)
    then have "0 < int D" by linarith
    then have "nat (cs ! ?p mod int D) < D" by (simp add: nat_less_iff)
    then show ?thesis using ih Picked by (simp add: block_sizes_Cons)
  next
    case New
    from Cons.prems(4) New obtain b bs' where
      b: "bs = b # bs'" "list_all2 (<) bs' (basic_dims ss)"
      by (auto simp: basic_dims_Cons list_all2_Cons2)
    have "\<forall>sh \<in> set (picked_shapes ss). 0 \<notin> set sh"
      using Cons.prems(3) New by (simp add: picked_shapes_Cons)
    then have ih: "map snd (digits ss bs' bc) = block_sizes ss"
      "\<forall>(c, D) \<in> set (digits ss bs' bc). c < D"
      using Cons.IH[OF ok _ b(2)] by auto
    then show ?thesis using New b(1) by (simp add: block_sizes_Cons)
  next
    case Gap
    have "\<forall>sh \<in> set (picked_shapes ss). 0 \<notin> set sh"
      using Cons.prems(3) Gap by (simp add: picked_shapes_Cons)
    moreover have "list_all2 (<) bs (basic_dims ss)"
      using Cons.prems(4) Gap by (simp add: basic_dims_Cons)
    ultimately have ih: "map snd (digits ss bs bc) = block_sizes ss"
      "\<forall>(c, D) \<in> set (digits ss bs bc). c < D"
      using Cons.IH[OF ok] by auto
    then show ?thesis using Gap by (simp add: block_sizes_Cons)
  qed
qed

lemma list_all2_less_pos: "list_all2 (<) r sh \<Longrightarrow> 0 \<notin> set (sh :: nat list)"
  by (induction r sh rule: list_all2_induct) auto

lemma advanced_offsets_props:
  assumes "advanced_offsets ds items = Inr (sh, offs)"
  shows "length offs = prod_list sh \<and> (\<forall>off \<in> set offs. off < prod_list ds)"
proof -
  from assms obtain ss bsh where
    s: "selectors ds items = Inr ss" and b: "broadcast_all (picked_shapes ss) = Inr bsh"
    and c: "prod_list bsh = 0 \<or> list_all picked_in_range ss"
    unfolding advanced_offsets_def by (auto split: if_splits sum.splits)
  define pre where "pre = takeWhile (\<lambda>s. \<not> fancy_like s) ss"
  define rest where "rest = dropWhile (\<lambda>s. \<not> fancy_like s) ss"
  define adjacent where "adjacent = list_all (\<lambda>s. \<not> fancy_like s) (dropWhile fancy_like rest)"
  define lead where "lead = (if adjacent then basic_dims pre else [])"
  define trail where "trail = (if adjacent then basic_dims rest else basic_dims ss)"
  define f where "f = (\<lambda>r. ravel_blocks
                                      (digits ss
                                         (take (length lead) r @ drop (length lead + length bsh) r)
                                         (take (length bsh) (drop (length lead) r))))"
  have r: "sh = lead @ bsh @ trail" "offs = map f (multi_indices (lead @ bsh @ trail))"
    using assms s b c
    unfolding advanced_offsets_def Let_def pre_def rest_def adjacent_def lead_def trail_def f_def
    by (auto split: if_splits)
  have lt: "lead @ trail = basic_dims ss"
  proof (cases adjacent)
    case True
    have "pre @ rest = ss" unfolding pre_def rest_def by simp
    then show ?thesis using True unfolding lead_def trail_def
      by (metis basic_dims_append)
  next
    case False
    then show ?thesis unfolding lead_def trail_def by simp
  qed
  have snd: "list_all selector_ok ss" "prod_list (block_sizes ss) = prod_list ds"
    using selectors_sound[OF s] by auto
  have bound: "f r < prod_list ds" if r: "r \<in> set (multi_indices (lead @ bsh @ trail))" for r
  proof -
    have v: "list_all2 (<) r (lead @ bsh @ trail)" using r by (rule multi_indices_valid)
    then obtain u w where
      u: "r = u @ w" "length u = length lead" "list_all2 (<) u lead" "list_all2 (<) w (bsh @ trail)"
      by (auto simp: list_all2_append2)
    from u(4) obtain x y where
      x: "w = x @ y" "length x = length bsh" "list_all2 (<) x bsh" "list_all2 (<) y trail"
      by (auto simp: list_all2_append2)
    have bs: "take (length lead) r @ drop (length lead + length bsh) r = u @ y"
      using u(1,2) x(1,2) by simp
    have nz: "0 \<notin> set bsh" using x(3) by (rule list_all2_less_pos)
    then have "prod_list bsh \<noteq> 0" using prod_list_pos[of bsh] by simp
    then have pr: "list_all picked_in_range ss" using c by simp
    have z: "\<forall>sh \<in> set (picked_shapes ss). 0 \<notin> set sh"
      using broadcast_all_zero[OF b] nz by blast
    have "list_all2 (<) (u @ y) (lead @ trail)" using u(3) x(4) by (rule list_all2_appendI)
    then have val: "list_all2 (<) (take (length lead) r @ drop (length lead + length bsh) r) (basic_dims ss)"
      unfolding bs lt .
    let ?dg = "digits ss (take (length lead) r @ drop (length lead + length bsh) r)
                 (take (length bsh) (drop (length lead) r))"
    from digits_sound[OF snd(1) pr z val]
    have d: "map snd ?dg = block_sizes ss" "\<forall>(c, D) \<in> set ?dg. c < D" by auto
    have "ravel_blocks ?dg < prod_list (map snd ?dg)" using d(2) by (rule ravel_blocks_bound)
    then show ?thesis unfolding f_def d(1) snd(2) .
  qed
  have "length offs = prod_list sh" unfolding r by (simp add: length_multi_indices)
  moreover have "\<forall>off \<in> set offs. off < prod_list ds" unfolding r(2) using bound by auto
  ultimately show ?thesis by simp
qed

lemma scalar_index_basic: "\<not> list_ex is_array index \<Longrightarrow> map scalar_index index = index"
proof (induction index)
  case Nil
  then show ?case by simp
next
  case (Cons i index)
  then show ?case by (cases i) (simp_all add: scalar_index_def is_array_def)
qed

lemma np_getitem_entries:
  assumes "wf_array a" "np_getitem a index = Inr sub"
  shows "wf_array sub \<and> set (elems sub) \<subseteq> set (elems a)"
proof -
  let ?items = "map scalar_index index"
  from assms(2) obtain sh offs where
    r: "(if list_ex is_array ?items then advanced_offsets (shape a) ?items
         else index_offsets (shape a) (expand_ellipsis (length (shape a)) ?items)) = Inr (sh, offs)"
    and s: "sub = \<lparr>shape = sh, elems = map (\<lambda>off. elems a ! off) offs\<rparr>"
    unfolding np_getitem_def Let_def by (auto split: if_splits sum.splits prod.splits)
  have p: "length offs = prod_list sh \<and> (\<forall>off \<in> set offs. off < prod_list (shape a))"
  proof (cases "list_ex is_array ?items")
    case True
    then show ?thesis using r advanced_offsets_props[of "shape a" ?items sh offs] by simp
  next
    case False
    then have i: "index_offsets (shape a) (expand_ellipsis (length (shape a)) ?items) = Inr (sh, offs)"
      using r by simp
    show ?thesis using index_offsets_length[OF i] index_offsets_props[OF i] by simp
  qed
  have "wf_array sub" unfolding s wf_array_def using p by simp
  moreover have "set (elems sub) \<subseteq> set (elems a)"
    unfolding s using p assms(1) by (auto simp: wf_array_def)
  ultimately show ?thesis by simp
qed

lemma np_getitem_props:
  assumes "wf_array a" "basic_index index" "np_getitem a index = Inr sub"
  shows "wf_array sub \<and> (\<exists>offs. distinct offs \<and> (\<forall>off \<in> set offs. off < length (elems a))
            \<and> elems sub = map (\<lambda>off. elems a ! off) offs)"
proof -
  have e: "map scalar_index index = index"
    using assms(2) unfolding basic_index_def by (rule scalar_index_basic)
  from assms(3) obtain sh offs where
    r: "index_offsets (shape a) (expand_ellipsis (length (shape a)) index) = Inr (sh, offs)"
    and s: "sub = \<lparr>shape = sh, elems = map (\<lambda>off. elems a ! off) offs\<rparr>"
    using assms(2) unfolding np_getitem_def Let_def e basic_index_def
    by (auto split: if_splits sum.splits prod.splits)
  have "wf_array sub" unfolding s wf_array_def using index_offsets_length[OF r] by simp
  moreover have "distinct offs" "\<forall>off \<in> set offs. off < length (elems a)"
    using index_offsets_props[OF r] assms(1) by (auto simp: wf_array_def)
  ultimately show ?thesis using s by auto
qed

lemma distinct_filter_nth:
  "distinct (filter P xs) \<Longrightarrow> i < length xs \<Longrightarrow> j < length xs \<Longrightarrow> P (xs ! i) \<Longrightarrow>
     xs ! i = xs ! j \<Longrightarrow> i = j"
proof (induction xs arbitrary: i j)
  case Nil
  then show ?case by simp
next
  case (Cons x xs)
  show ?case
  proof (cases i; cases j)
    fix i' j' assume "i = Suc i'" "j = Suc j'"
    then show ?thesis using Cons.prems Cons.IH[of i' j'] by (auto split: if_splits)
  next
    fix j' assume ij: "i = 0" "j = Suc j'"
    then have "x \<in> set xs" using Cons.prems by (auto simp: in_set_conv_nth)
    then show ?thesis using Cons.prems ij by auto
  next
    fix i' assume ij: "i = Suc i'" "j = 0"
    then have "x \<in> set xs" using Cons.prems by (metis length_Cons Suc_less_eq nth_Cons_0 nth_Cons_Suc nth_mem)
    then show ?thesis using Cons.prems ij by auto
  qed simp
qed

lemma distinct_filter_map_nth:
  assumes "distinct (filter P xs)" "distinct offs" "\<forall>off \<in> set offs. off < length xs"
  shows "distinct (filter P (map (\<lambda>off. xs ! off) offs))"
proof -
  have "filter P (map (\<lambda>off. xs ! off) offs) = map (\<lambda>off. xs ! off) (filter (\<lambda>off. P (xs ! off)) offs)"
    by (simp add: filter_map comp_def)
  moreover have "inj_on (\<lambda>off. xs ! off) (set (filter (\<lambda>off. P (xs ! off)) offs))"
    using assms(1,3) by (auto simp: inj_on_def intro: distinct_filter_nth)
  ultimately show ?thesis using assms(2) by (simp add: distinct_map)
qed

section \<open>The operations of the masked store: proofs\<close>

lemma fix_unknown_fill:
  "prod_list (map (\<lambda>d. if d < 0 then q else nat d) new) =
     q ^ length (filter (\<lambda>d. d < 0) new) * nat (prod_list (filter (\<lambda>d. 0 \<le> d) new))"
proof (induction new)
  case Nil
  then show ?case by simp
next
  case (Cons d new)
  show ?case
  proof (cases "d < 0")
    case True
    then show ?thesis using Cons by simp
  next
    case False
    then have "nat (d * prod_list (filter (\<lambda>d. 0 \<le> d) new)) = nat d * nat (prod_list (filter (\<lambda>d. 0 \<le> d) new))"
      by (simp add: nat_mult_distrib)
    then show ?thesis using False Cons by simp
  qed
qed

lemma fix_unknown_dimension_size:
  assumes "fix_unknown_dimension n new = Inr sh"
  shows "prod_list sh = n"
proof -
  let ?known = "nat (prod_list (filter (\<lambda>d. 0 \<le> d) new))"
  let ?neg = "filter (\<lambda>d. d < 0) new"
  have le: "length ?neg \<le> 1"
    using assms unfolding fix_unknown_dimension_def Let_def by (auto split: if_splits)
  show ?thesis
  proof (cases "?neg = []")
    case True
    then have k: "?known = n" and s: "sh = map nat new"
      using assms unfolding fix_unknown_dimension_def Let_def by (auto split: if_splits)
    have "\<forall>d \<in> set new. \<not> d < 0" using True by (simp add: filter_empty_conv)
    then have m: "map nat new = map (\<lambda>d. if d < 0 then 0 else nat d) new" by (intro map_cong) auto
    have "prod_list (map (\<lambda>d. if d < 0 then 0 else nat d) new) = n"
      unfolding fix_unknown_fill[of 0 new] True using k by simp
    then show ?thesis unfolding s m .
  next
    case False
    then have l: "length ?neg = 1" using le by (cases ?neg) auto
    have k: "?known \<noteq> 0" "n mod ?known = 0"
      and s: "sh = map (\<lambda>d. if d < 0 then n div ?known else nat d) new"
      using assms False le unfolding fix_unknown_dimension_def Let_def by (auto split: if_splits)
    have "prod_list sh = (n div ?known) * ?known"
      unfolding s fix_unknown_fill l by simp
    then show ?thesis using k(2) by (simp add: mod_eq_0_iff_dvd)
  qed
qed

lemma np_reshape_inplace_size:
  "np_reshape_inplace sh st new = Inr (sh', st') \<Longrightarrow> prod_list sh' = prod_list sh"
  unfolding np_reshape_inplace_def
  by (auto split: if_splits sum.splits option.splits dest: fix_unknown_dimension_size)

lemma c_contiguous_c_strides: "c_contiguous sh (c_strides sh)"
  by (induction sh) simp_all

lemma prod_list_int: "prod_list (map int xs) = int (prod_list xs)"
  by (induction xs) simp_all

lemma fix_unknown_dimension_known:
  "prod_list sh = n \<Longrightarrow> fix_unknown_dimension n (map int sh) = Inr sh"
  unfolding fix_unknown_dimension_def Let_def
  by (simp add: filter_empty_conv prod_list_int comp_def)

lemma np_reshape_inplace_contiguous:
  assumes "prod_list sh' = prod_list sh"
  shows "np_reshape_inplace sh (c_strides sh) (map int sh') = Inr (sh', c_strides sh')"
proof (cases "sh' = sh")
  case True
  then show ?thesis by (simp add: np_reshape_inplace_def)
next
  case False
  have "inj int" by (simp add: inj_on_def)
  then have ne: "map int sh' \<noteq> map int sh" using False by (simp add: inj_map_eq_map)
  show ?thesis
    unfolding np_reshape_inplace_def
    using ne fix_unknown_dimension_known[OF assms] c_contiguous_c_strides[of sh]
    by (simp add: is_c_contiguous_def)
qed

lemma ModelParams_set_shape_result:
  assumes "ModelParams_set_shape s new = Inr s'"
  shows "\<exists>sh l. s' = s\<lparr>imask := (imask s)\<lparr>shape := sh\<rparr>, imask_layout := l\<rparr>
           \<and> prod_list sh = prod_list (shape (imask s))"
  using assms unfolding ModelParams_set_shape_def
  by (auto split: layout.splits sum.splits prod.splits dest: np_reshape_inplace_size)

lemma store_inv_set_shape:
  "store_inv s \<Longrightarrow> ModelParams_set_shape s new = Inr s' \<Longrightarrow> store_inv s'"
  using ModelParams_set_shape_result[of s new s']
  by (auto simp: store_inv_def wf_array_def)

lemma view_inv_set_shape:
  "view_inv s \<Longrightarrow> ModelParams_set_shape s new = Inr s' \<Longrightarrow> view_inv s'"
  using ModelParams_set_shape_result[of s new s']
  by (auto simp: view_inv_def wf_array_def)

lemma rows_inv_set_shape:
  "rows_inv s \<Longrightarrow> ModelParams_set_shape s new = Inr s' \<Longrightarrow> rows_inv s'"
  using ModelParams_set_shape_result[of s new s']
  by (auto simp: rows_inv_def wf_array_def)

lemma contiguous_set_shape:
  assumes "contiguous_store s" "wf_array (imask s)" "prod_list sh = length (elems (imask s))"
  shows "ModelParams_set_shape s (map int sh) =
           Inr (s\<lparr>imask := (imask s)\<lparr>shape := sh\<rparr>, imask_layout := Strided (c_strides sh)\<rparr>)"
proof -
  have p: "prod_list sh = prod_list (shape (imask s))" using assms(2,3) by (simp add: wf_array_def)
  show ?thesis
    unfolding ModelParams_set_shape_def
    using assms(1) np_reshape_inplace_contiguous[OF p]
    by (simp add: contiguous_store_def)
qed

lemma bool_select_map: "bool_select xs (map P xs) = filter P xs"
  unfolding bool_select_def by (induction xs) auto

lemma masked_rows_filter: "masked_rows s = filter (\<lambda>v. 0 \<le> v) (elems (imask s))"
  by (simp add: masked_rows_def ModelParams_mask_def bool_select_map)

lemma true_count_mask: "true_count (map P xs) = length (filter P xs)"
  unfolding true_count_def by (induction xs) auto

lemma length_write_rows: "length (write_rows rs idx vs) = length rs"
  by (induction rs idx vs rule: write_rows.induct) auto



lemma store_inv_view: "store_inv s \<Longrightarrow> view_inv s"
proof -
  assume a: "store_inv s"
  let ?f = "filter (\<lambda>v. 0 \<le> v) (elems (imask s))"
  have f: "?f = map int [0..<length (rows (data s))]" using a by (simp add: store_inv_def)
  have d: "distinct ?f" unfolding f by (simp add: distinct_map)
  have "v < int (length (rows (data s)))" if v: "v \<in> set (elems (imask s))" for v
  proof (cases "0 \<le> v")
    case True
    then have "v \<in> set ?f" using v by simp
    then show ?thesis unfolding f by auto
  next
    case False
    then show ?thesis by linarith
  qed
  then show ?thesis using a d by (simp add: store_inv_def view_inv_def)
qed

lemma view_inv_rows: "view_inv s \<Longrightarrow> rows_inv s"
  by (simp add: view_inv_def rows_inv_def)

lemma view_inv_distinct:
  "view_inv s = (rows_inv s \<and> distinct (filter (\<lambda>v. 0 \<le> v) (elems (imask s))))"
  by (auto simp: view_inv_def rows_inv_def)

lemma ModelParams_setitem_imask:
  "ModelParams_setitem s index vals = Inr s' \<Longrightarrow>
     imask s' = imask s \<and> imask_layout s' = imask_layout s
       \<and> length (rows (data s')) = length (rows (data s))"
  unfolding ModelParams_setitem_def put_rows_def
  by (auto simp: length_write_rows split: sum.splits if_splits)

lemma store_inv_setitem:
  "store_inv s \<Longrightarrow> ModelParams_setitem s index vals = Inr s' \<Longrightarrow> store_inv s'"
  using ModelParams_setitem_imask[of s index vals s'] by (simp add: store_inv_def)

lemma view_inv_setitem:
  "view_inv s \<Longrightarrow> ModelParams_setitem s index vals = Inr s' \<Longrightarrow> view_inv s'"
  using ModelParams_setitem_imask[of s index vals s'] by (simp add: view_inv_def)

lemma rows_inv_setitem:
  "rows_inv s \<Longrightarrow> ModelParams_setitem s index vals = Inr s' \<Longrightarrow> rows_inv s'"
  using ModelParams_setitem_imask[of s index vals s'] by (simp add: rows_inv_def)

lemma contiguous_setitem:
  "contiguous_store s \<Longrightarrow> ModelParams_setitem s index vals = Inr s' \<Longrightarrow> contiguous_store s'"
  using ModelParams_setitem_imask[of s index vals s'] by (simp add: contiguous_store_def)

lemma rows_inv_getitem:
  assumes "rows_inv s" "ModelParams_getitem alloc s index = Inr v"
  shows "rows_inv v \<and> data v = data s \<and> set (elems (imask v)) \<subseteq> set (elems (imask s))"
proof -
  from assms(2) obtain sub l where
    g: "np_getitem (imask s) index = Inr sub" and v: "v = s\<lparr>imask := sub, imask_layout := l\<rparr>"
    unfolding ModelParams_getitem_def by (auto split: sum.splits)
  have wf: "wf_array (imask s)" using assms(1) by (simp add: rows_inv_def)
  have e: "wf_array sub" "set (elems sub) \<subseteq> set (elems (imask s))"
    using np_getitem_entries[OF wf g] by auto
  show ?thesis
    using assms(1) e unfolding v rows_inv_def int32_entries_def by auto
qed

lemma view_inv_getitem:
  assumes "view_inv s" "basic_index index" "ModelParams_getitem alloc s index = Inr v"
  shows "view_inv v"
proof -
  from assms(3) obtain sub l where
    g: "np_getitem (imask s) index = Inr sub" and v: "v = s\<lparr>imask := sub, imask_layout := l\<rparr>"
    unfolding ModelParams_getitem_def by (auto split: sum.splits)
  have wf: "wf_array (imask s)" using assms(1) by (simp add: view_inv_def)
  from np_getitem_props[OF wf assms(2) g] obtain offs where
    o: "wf_array sub" "distinct offs" "\<forall>off \<in> set offs. off < length (elems (imask s))"
       "elems sub = map (\<lambda>off. elems (imask s) ! off) offs"
    by auto
  have d: "distinct (filter (\<lambda>v. 0 \<le> v) (elems sub))"
    unfolding o(4) using assms(1) o(2,3) by (intro distinct_filter_map_nth) (auto simp: view_inv_def)
  have "rows_inv v" using rows_inv_getitem[OF view_inv_rows[OF assms(1)] assms(3)] by simp
  then show ?thesis unfolding view_inv_distinct using d v by simp
qed

lemma distinct_int32_length:
  assumes "distinct vs" "\<forall>v \<in> set vs. 0 \<le> v \<and> v < (2 ^ 31 :: int)"
  shows "int (length vs) \<le> 2 ^ 31"
proof -
  have "set vs \<subseteq> {0..<2 ^ 31}" using assms(2) by auto
  then have "card (set vs) \<le> card {0..<(2 ^ 31 :: int)}" by (intro card_mono) auto
  then show ?thesis using distinct_card[OF assms(1)] by simp
qed

lemma ModelParams_copy_ok:
  assumes "rows_inv s" "filter (\<lambda>v. 0 \<le> v) (elems (imask s)) \<noteq> []"
    and "int (length (filter (\<lambda>v. 0 \<le> v) (elems (imask s)))) \<le> 2 ^ 31"
  shows "\<exists>c. ModelParams_copy s = Inr c \<and> store_inv c \<and> contiguous_store c
           \<and> shape (imask c) = shape (imask s)
           \<and> rows (data c) = map (\<lambda>v. rows (data s) ! nat v) (filter (\<lambda>v. 0 \<le> v) (elems (imask s)))"
proof -
  let ?idx = "filter (\<lambda>v. 0 \<le> v) (elems (imask s))"
  let ?n = "length (rows (data s))"
  let ?dat = "(data s)\<lparr>rows := map (\<lambda>i. rows (data s) ! row_number ?n i) ?idx\<rparr>"
  let ?msk = "ModelParams_mask s"
  have rng: "\<forall>i \<in> set ?idx. row_in_range ?n i"
    using assms(1) by (auto simp: rows_inv_def row_in_range_def)
  have t: "take_rows (data s) (masked_rows s) = Inr ?dat"
    unfolding masked_rows_filter take_rows_def using rng by simp
  have rn: "map (\<lambda>i. rows (data s) ! row_number ?n i) ?idx = map (\<lambda>v. rows (data s) ! nat v) ?idx"
    by (rule map_cong) (auto simp: row_number_def)
  have wf: "wf_array ?msk"
    using assms(1) by (simp add: rows_inv_def wf_array_def ModelParams_mask_def)
  have tc: "true_count (elems ?msk) = length ?idx"
    by (simp add: ModelParams_mask_def true_count_mask)
  have pos: "0 < true_count (elems ?msk)" unfolding tc using assms(2) by simp
  have bnd: "int (true_count (elems ?msk)) \<le> 2 ^ 31" unfolding tc using assms(3) .
  have len: "length (rows ?dat) = true_count (elems ?msk)" unfolding tc by simp
  let ?c = "\<lparr>imask = \<lparr>shape = shape ?msk, elems = number_from 0 (elems ?msk)\<rparr>,
            imask_layout = Strided (c_strides (shape ?msk)), data = ?dat\<rparr>"
  have "ModelParams_copy s = Inr ?c"
    unfolding ModelParams_copy_def t using ModelParams_init_ok[OF wf pos bnd len] by simp
  moreover have "store_inv ?c" by (rule store_inv_number_from[OF wf bnd len])
  moreover have "contiguous_store ?c" by (simp add: contiguous_store_def)
  moreover have "shape (imask ?c) = shape (imask s)" by (simp add: ModelParams_mask_def)
  moreover have "rows (data ?c) = map (\<lambda>v. rows (data s) ! nat v) ?idx" using rn by simp
  ultimately show ?thesis by blast
qed

lemma rows_inv_copy:
  assumes "rows_inv s" "ModelParams_copy s = Inr c"
    and "int (length (filter (\<lambda>v. 0 \<le> v) (elems (imask s)))) \<le> 2 ^ 31"
  shows "store_inv c \<and> contiguous_store c"
proof (cases "filter (\<lambda>v. 0 \<le> v) (elems (imask s)) = []")
  case True
  have wf: "wf_array (ModelParams_mask s)"
    using assms(1) by (simp add: rows_inv_def wf_array_def ModelParams_mask_def)
  have "true_count (elems (ModelParams_mask s)) = 0"
    using True by (simp add: ModelParams_mask_def true_count_mask)
  then have "ModelParams_init (ModelParams_mask s) dat = Inl NumpyIndexError" for dat :: "('a, 'b) row_array"
    unfolding ModelParams_init_cases[OF wf] by simp
  then have False using assms(2) unfolding ModelParams_copy_def by (auto split: sum.splits)
  then show ?thesis ..
next
  case False
  from ModelParams_copy_ok[OF assms(1) False assms(3)] show ?thesis using assms(2) by auto
qed

lemma view_inv_count:
  assumes "view_inv s"
  shows "int (length (filter (\<lambda>v. 0 \<le> v) (elems (imask s)))) \<le> 2 ^ 31"
proof -
  have "\<forall>v \<in> set (filter (\<lambda>v. 0 \<le> v) (elems (imask s))). 0 \<le> v \<and> v < 2 ^ 31"
    using assms by (auto simp: view_inv_def int32_entries_def)
  then show ?thesis using assms by (intro distinct_int32_length) (auto simp: view_inv_def)
qed

lemma store_inv_copy:
  assumes "view_inv s" "ModelParams_copy s = Inr c"
  shows "store_inv c"
  using rows_inv_copy[OF view_inv_rows[OF assms(1)] assms(2) view_inv_count[OF assms(1)]] by simp


lemma contiguous_set_shape_kept:
  assumes "contiguous_store s" "ModelParams_set_shape s new = Inr s'"
  shows "contiguous_store s'"
proof -
  let ?sh = "shape (imask s)"
  have l: "imask_layout s = Strided (c_strides ?sh)" using assms(1) by (simp add: contiguous_store_def)
  from assms(2) obtain sh' st' where
    r: "np_reshape_inplace ?sh (c_strides ?sh) new = Inr (sh', st')"
    and s': "s' = s\<lparr>imask := (imask s)\<lparr>shape := sh'\<rparr>, imask_layout := Strided st'\<rparr>"
    unfolding ModelParams_set_shape_def l by (auto split: sum.splits prod.splits)
  have "st' = c_strides sh'"
    using r c_contiguous_c_strides[of ?sh] unfolding np_reshape_inplace_def
    by (auto simp: is_c_contiguous_def split: if_splits sum.splits)
  then show ?thesis unfolding s' by (simp add: contiguous_store_def)
qed


section \<open>The masked store: the claims\<close>

text \<open>
  Claim C10. For every mask without a True entry, \<^verbatim>\<open>ModelParams.__init__\<close> raises the
  IndexError of \<^verbatim>\<open>indexes[-1]\<close> on the empty running count, whatever the data is, also
  when the data has no rows: no store without a masked voxel is constructed.
\<close>

theorem ModelParams_init_all_false:
  assumes "\<forall>b \<in> set (elems msk). \<not> b"
  shows "ModelParams_init msk dat = Inl NumpyIndexError"
proof -
  have "filter id (elems msk) = []" using assms by (auto simp: filter_empty_conv)
  then show ?thesis
    unfolding ModelParams_init_def Let_def bool_select_self np_cumsum_def by simp
qed

theorem ModelParams_init_all_false_witness:
  "ModelParams_init \<lparr>shape = [2, 2], elems = [False, False, False, False]\<rparr>
     \<lparr>dtype = ''float64'', row_shape = [3], rows = ([] :: int list list)\<rparr> = Inl NumpyIndexError"
  using ModelParams_init_all_false[of "\<lparr>shape = [2, 2], elems = [False, False, False, False]\<rparr>"
      "\<lparr>dtype = ''float64'', row_shape = [3], rows = ([] :: int list list)\<rparr>"]
  by simp

text \<open>
  Claim C9, at a mask without a True entry and data without rows: the row count equals
  the True-count, and the construction raises an IndexError instead of succeeding. For
  a mask with a True entry the constructor succeeds exactly when the row count is the
  True-count, and raises the error of the mismatch otherwise, as the lemma
  \<open>ModelParams_init_cases\<close> shows.
\<close>

theorem ModelParams_init_empty_mask_no_rows:
  "ModelParams_init \<lparr>shape = [2], elems = [False, False]\<rparr>
     \<lparr>dtype = d, row_shape = rs, rows = []\<rparr> = Inl NumpyIndexError"
  by (simp add: ModelParams_init_def bool_select_def np_cumsum_def)

text \<open>
  Claim C1, as amended. For a mask with at least one and at most \<open>2 ^ 31\<close> True entries
  and data with one row for each of them, the constructor returns a store on the data
  whose index volume has the mask's shape, is \<open>-1\<close> exactly where the mask is False and
  numbers the True positions \<open>0, 1, \<dots>, rowCount - 1\<close> in scan order (\<open>store_inv\<close>); the
  index volume lies in memory in scan order, and the store can be copied.
  \<^item> Assignment, an assignment to the shape that succeeds, and copying keep \<open>store_inv\<close>.
  \<^item> Indexing does not keep it. It returns a view on the same data whose index volume
    holds entries of the indexed one, so that they are \<open>-1\<close> or row numbers of the data
    (\<open>rows_inv\<close>): in general not all the row numbers, and with an array of integers in
    the index a row number more than once. For an index without an array the
    non-negative entries of the view are distinct (\<open>view_inv\<close>).
  \<^item> Both kinds of views are closed under assignment, under an assignment to the shape
    that succeeds, and under indexing (without an array, for \<open>view_inv\<close>). A copy of a
    view with distinct row numbers satisfies \<open>store_inv\<close>, and so does a copy of any view
    with at most \<open>2 ^ 31\<close> non-negative entries.
  \<^item> The assignment of a shape with the number of elements of the index volume succeeds
    on a store whose index volume lies in scan order, which the index volume of the
    result does, too; assignments to the store keep this layout. On a view the
    assignment to the shape can raise the AttributeError, see
    \<open>ModelParams_set_shape_of_view\<close>.
\<close>

theorem ModelParams_invariant:
  fixes dat :: "('d, 'r) row_array"
  assumes "wf_array msk" and "0 < true_count (elems msk)"
    and "int (true_count (elems msk)) \<le> 2 ^ 31"
    and "length (rows dat) = true_count (elems msk)"
  shows "\<exists>s. ModelParams_init msk dat = Inr s
           \<and> data s = dat \<and> shape (imask s) = shape msk
           \<and> length (elems (imask s)) = length (elems msk)
           \<and> (\<forall>i < length (elems msk). (elems (imask s) ! i = - 1) = (\<not> elems msk ! i))
           \<and> filter (\<lambda>v. 0 \<le> v) (elems (imask s)) = map int [0..<length (rows dat)]
           \<and> store_inv s \<and> contiguous_store s
           \<and> (\<exists>c. ModelParams_copy s = Inr c)
           \<and> (\<forall>t :: ('d, 'r) ModelParams. store_inv t \<longrightarrow>
                 (\<forall>index vals t'. ModelParams_setitem t index vals = Inr t' \<longrightarrow> store_inv t')
               \<and> (\<forall>new t'. ModelParams_set_shape t new = Inr t' \<longrightarrow> store_inv t')
               \<and> (\<forall>c. ModelParams_copy t = Inr c \<longrightarrow> store_inv c)
               \<and> (\<forall>alloc index v. ModelParams_getitem alloc t index = Inr v \<longrightarrow>
                     rows_inv v \<and> data v = data t \<and> (basic_index index \<longrightarrow> view_inv v)))
           \<and> (\<forall>v :: ('d, 'r) ModelParams. view_inv v \<longrightarrow>
                 (\<forall>index vals v'. ModelParams_setitem v index vals = Inr v' \<longrightarrow> view_inv v')
               \<and> (\<forall>new v'. ModelParams_set_shape v new = Inr v' \<longrightarrow> view_inv v')
               \<and> (\<forall>c. ModelParams_copy v = Inr c \<longrightarrow> store_inv c)
               \<and> (\<forall>alloc index v'. ModelParams_getitem alloc v index = Inr v' \<longrightarrow>
                     rows_inv v' \<and> data v' = data v \<and> (basic_index index \<longrightarrow> view_inv v')))
           \<and> (\<forall>v :: ('d, 'r) ModelParams. rows_inv v \<longrightarrow>
                 (\<forall>index vals v'. ModelParams_setitem v index vals = Inr v' \<longrightarrow> rows_inv v')
               \<and> (\<forall>new v'. ModelParams_set_shape v new = Inr v' \<longrightarrow> rows_inv v')
               \<and> (\<forall>c. ModelParams_copy v = Inr c \<longrightarrow>
                     int (length (filter (\<lambda>e. 0 \<le> e) (elems (imask v)))) \<le> 2 ^ 31 \<longrightarrow>
                     store_inv c)
               \<and> (\<forall>alloc index v'. ModelParams_getitem alloc v index = Inr v' \<longrightarrow>
                     rows_inv v' \<and> data v' = data v))
           \<and> (\<forall>t :: ('d, 'r) ModelParams. contiguous_store t \<longrightarrow>
                 (\<forall>sh. wf_array (imask t) \<longrightarrow> prod_list sh = length (elems (imask t)) \<longrightarrow>
                    (\<exists>t'. ModelParams_set_shape t (map int sh) = Inr t'
                         \<and> shape (imask t') = sh \<and> elems (imask t') = elems (imask t)
                         \<and> data t' = data t))
               \<and> (\<forall>new t'. ModelParams_set_shape t new = Inr t' \<longrightarrow> contiguous_store t')
               \<and> (\<forall>index vals t'. ModelParams_setitem t index vals = Inr t' \<longrightarrow>
                     contiguous_store t'))"
proof -
  let ?s = "\<lparr>imask = \<lparr>shape = shape msk, elems = number_from 0 (elems msk)\<rparr>,
            imask_layout = Strided (c_strides (shape msk)), data = dat\<rparr>"
  have i: "ModelParams_init msk dat = Inr ?s" by (rule ModelParams_init_ok[OF assms])
  have inv: "store_inv ?s" by (rule store_inv_number_from[OF assms(1,3,4)])
  have cg: "contiguous_store ?s" by (simp add: contiguous_store_def)
  have m: "\<forall>i < length (elems msk). (elems (imask ?s) ! i = - 1) = (\<not> elems msk ! i)"
    using number_from_minus_one[of 0 _ "elems msk"] by simp
  have f: "filter (\<lambda>v. 0 \<le> v) (elems (imask ?s)) = map int [0..<length (rows dat)]"
    using inv by (simp add: store_inv_def)
  have ne: "filter (\<lambda>v. 0 \<le> v) (elems (imask ?s)) \<noteq> []"
    unfolding f using assms(2,4) by simp
  have c: "\<exists>c. ModelParams_copy ?s = Inr c"
    using ModelParams_copy_ok[OF view_inv_rows[OF store_inv_view[OF inv]] ne
        view_inv_count[OF store_inv_view[OF inv]]]
    by blast
  have pr: "(\<forall>index vals v'. ModelParams_setitem v index vals = Inr v' \<longrightarrow> rows_inv v')
          \<and> (\<forall>new v'. ModelParams_set_shape v new = Inr v' \<longrightarrow> rows_inv v')
          \<and> (\<forall>c. ModelParams_copy v = Inr c \<longrightarrow>
                int (length (filter (\<lambda>e. 0 \<le> e) (elems (imask v)))) \<le> 2 ^ 31 \<longrightarrow> store_inv c)
          \<and> (\<forall>alloc index v'. ModelParams_getitem alloc v index = Inr v' \<longrightarrow>
                rows_inv v' \<and> data v' = data v)"
    if "rows_inv v" for v :: "('d, 'r) ModelParams"
    using rows_inv_setitem[OF that] rows_inv_set_shape[OF that] rows_inv_copy[OF that]
      rows_inv_getitem[OF that]
    by blast
  have pv: "(\<forall>index vals v'. ModelParams_setitem v index vals = Inr v' \<longrightarrow> view_inv v')
          \<and> (\<forall>new v'. ModelParams_set_shape v new = Inr v' \<longrightarrow> view_inv v')
          \<and> (\<forall>c. ModelParams_copy v = Inr c \<longrightarrow> store_inv c)
          \<and> (\<forall>alloc index v'. ModelParams_getitem alloc v index = Inr v' \<longrightarrow>
                rows_inv v' \<and> data v' = data v \<and> (basic_index index \<longrightarrow> view_inv v'))"
    if "view_inv v" for v :: "('d, 'r) ModelParams"
    using view_inv_setitem[OF that] view_inv_set_shape[OF that] store_inv_copy[OF that]
      view_inv_getitem[OF that] rows_inv_getitem[OF view_inv_rows[OF that]]
    by blast
  have ps: "(\<forall>index vals t'. ModelParams_setitem t index vals = Inr t' \<longrightarrow> store_inv t')
          \<and> (\<forall>new t'. ModelParams_set_shape t new = Inr t' \<longrightarrow> store_inv t')
          \<and> (\<forall>c. ModelParams_copy t = Inr c \<longrightarrow> store_inv c)
          \<and> (\<forall>alloc index v. ModelParams_getitem alloc t index = Inr v \<longrightarrow>
                rows_inv v \<and> data v = data t \<and> (basic_index index \<longrightarrow> view_inv v))"
    if "store_inv t" for t :: "('d, 'r) ModelParams"
    using store_inv_setitem[OF that] store_inv_set_shape[OF that]
      store_inv_copy[OF store_inv_view[OF that]] view_inv_getitem[OF store_inv_view[OF that]]
      rows_inv_getitem[OF view_inv_rows[OF store_inv_view[OF that]]]
    by blast
  have pc: "(\<forall>sh. wf_array (imask t) \<longrightarrow> prod_list sh = length (elems (imask t)) \<longrightarrow>
                    (\<exists>t'. ModelParams_set_shape t (map int sh) = Inr t'
                         \<and> shape (imask t') = sh \<and> elems (imask t') = elems (imask t)
                         \<and> data t' = data t))
          \<and> (\<forall>new t'. ModelParams_set_shape t new = Inr t' \<longrightarrow> contiguous_store t')
          \<and> (\<forall>index vals t'. ModelParams_setitem t index vals = Inr t' \<longrightarrow> contiguous_store t')"
    if "contiguous_store t" for t :: "('d, 'r) ModelParams"
  proof -
    have "\<exists>t'. ModelParams_set_shape t (map int sh) = Inr t'
             \<and> shape (imask t') = sh \<and> elems (imask t') = elems (imask t) \<and> data t' = data t"
      if "wf_array (imask t)" "prod_list sh = length (elems (imask t))" for sh
      using contiguous_set_shape[OF \<open>contiguous_store t\<close> that] by simp
    then show ?thesis
      using contiguous_set_shape_kept[OF that] contiguous_setitem[OF that] by blast
  qed
  have ps': "\<forall>t :: ('d, 'r) ModelParams. store_inv t \<longrightarrow>
                 (\<forall>index vals t'. ModelParams_setitem t index vals = Inr t' \<longrightarrow> store_inv t')
               \<and> (\<forall>new t'. ModelParams_set_shape t new = Inr t' \<longrightarrow> store_inv t')
               \<and> (\<forall>c. ModelParams_copy t = Inr c \<longrightarrow> store_inv c)
               \<and> (\<forall>alloc index v. ModelParams_getitem alloc t index = Inr v \<longrightarrow>
                     rows_inv v \<and> data v = data t \<and> (basic_index index \<longrightarrow> view_inv v))"
    using ps by blast
  have pv': "\<forall>v :: ('d, 'r) ModelParams. view_inv v \<longrightarrow>
                 (\<forall>index vals v'. ModelParams_setitem v index vals = Inr v' \<longrightarrow> view_inv v')
               \<and> (\<forall>new v'. ModelParams_set_shape v new = Inr v' \<longrightarrow> view_inv v')
               \<and> (\<forall>c. ModelParams_copy v = Inr c \<longrightarrow> store_inv c)
               \<and> (\<forall>alloc index v'. ModelParams_getitem alloc v index = Inr v' \<longrightarrow>
                     rows_inv v' \<and> data v' = data v \<and> (basic_index index \<longrightarrow> view_inv v'))"
    using pv by blast
  have pr': "\<forall>v :: ('d, 'r) ModelParams. rows_inv v \<longrightarrow>
                 (\<forall>index vals v'. ModelParams_setitem v index vals = Inr v' \<longrightarrow> rows_inv v')
               \<and> (\<forall>new v'. ModelParams_set_shape v new = Inr v' \<longrightarrow> rows_inv v')
               \<and> (\<forall>c. ModelParams_copy v = Inr c \<longrightarrow>
                     int (length (filter (\<lambda>e. 0 \<le> e) (elems (imask v)))) \<le> 2 ^ 31 \<longrightarrow>
                     store_inv c)
               \<and> (\<forall>alloc index v'. ModelParams_getitem alloc v index = Inr v' \<longrightarrow>
                     rows_inv v' \<and> data v' = data v)"
    using pr by blast
  have pc': "\<forall>t :: ('d, 'r) ModelParams. contiguous_store t \<longrightarrow>
                 (\<forall>sh. wf_array (imask t) \<longrightarrow> prod_list sh = length (elems (imask t)) \<longrightarrow>
                    (\<exists>t'. ModelParams_set_shape t (map int sh) = Inr t'
                         \<and> shape (imask t') = sh \<and> elems (imask t') = elems (imask t)
                         \<and> data t' = data t))
               \<and> (\<forall>new t'. ModelParams_set_shape t new = Inr t' \<longrightarrow> contiguous_store t')
               \<and> (\<forall>index vals t'. ModelParams_setitem t index vals = Inr t' \<longrightarrow>
                     contiguous_store t')"
    using pc by blast
  have d1: "data ?s = dat" by simp
  have d2: "shape (imask ?s) = shape msk" by simp
  have d3: "length (elems (imask ?s)) = length (elems msk)" by (simp add: length_number_from)
  show ?thesis
    by (rule exI[of _ ?s]) (intro conjI i d1 d2 d3 m f inv cg c ps' pv' pr' pc')
qed

theorem ModelParams_invariant_witness:
  "ModelParams_init \<lparr>shape = [2, 2], elems = [True, False, False, True]\<rparr>
       \<lparr>dtype = ''float64'', row_shape = [], rows = [10, 20 :: int]\<rparr>
     = Inr \<lparr>imask = \<lparr>shape = [2, 2], elems = [0, - 1, - 1, 1]\<rparr>,
            imask_layout = Strided [2, 1],
            data = \<lparr>dtype = ''float64'', row_shape = [], rows = [10, 20 :: int]\<rparr>\<rparr>
   \<and> store_inv \<lparr>imask = \<lparr>shape = [2, 2], elems = [0, - 1, - 1, 1]\<rparr>,
            imask_layout = Strided [2, 1],
            data = \<lparr>dtype = ''float64'', row_shape = [], rows = [10, 20 :: int]\<rparr>\<rparr>"
proof -
  let ?m = "\<lparr>shape = [2, 2], elems = [True, False, False, True]\<rparr>"
  let ?d = "\<lparr>dtype = ''float64'', row_shape = [], rows = [10, 20 :: int]\<rparr>"
  have h1: "wf_array ?m" by (simp add: wf_array_def)
  have h2: "0 < true_count (elems ?m)" by (simp add: true_count_def)
  have h3: "int (true_count (elems ?m)) \<le> 2 ^ 31" by (simp add: true_count_def)
  have h4: "length (rows ?d) = true_count (elems ?m)" by (simp add: true_count_def)
  from ModelParams_invariant[OF h1 h2 h3 h4] obtain s where
    s: "ModelParams_init ?m ?d = Inr s" "store_inv s"
    by (elim exE conjE) (rule that, assumption+)
  have e: "ModelParams_init ?m ?d = Inr \<lparr>imask = \<lparr>shape = [2, 2], elems = [0, - 1, - 1, 1]\<rparr>,
      imask_layout = Strided [2, 1], data = ?d\<rparr>"
    by code_simp
  show ?thesis using s e by simp
qed

text \<open>
  Claim C1 as stated fails for indexing: the view \<^verbatim>\<open>store[:1]\<close> of a store with two rows
  keeps the data array with its two rows, and its index volume only holds the row \<open>0\<close>.
\<close>

theorem ModelParams_getitem_not_all_rows:
  "ModelParams_init \<lparr>shape = [2], elems = [True, True]\<rparr>
       \<lparr>dtype = ''float64'', row_shape = [], rows = [10, 20 :: int]\<rparr>
     = Inr \<lparr>imask = \<lparr>shape = [2], elems = [0, 1]\<rparr>, imask_layout = Strided [1],
            data = \<lparr>dtype = ''float64'', row_shape = [], rows = [10, 20 :: int]\<rparr>\<rparr>
   \<and> ModelParams_getitem scan_order
         \<lparr>imask = \<lparr>shape = [2], elems = [0, 1]\<rparr>, imask_layout = Strided [1],
            data = \<lparr>dtype = ''float64'', row_shape = [], rows = [10, 20 :: int]\<rparr>\<rparr>
         [Slice None (Some 1) None]
     = Inr \<lparr>imask = \<lparr>shape = [1], elems = [0]\<rparr>, imask_layout = Strided [1],
            data = \<lparr>dtype = ''float64'', row_shape = [], rows = [10, 20 :: int]\<rparr>\<rparr>
   \<and> set (filter (\<lambda>v. 0 \<le> v) (elems (imask \<lparr>imask = \<lparr>shape = [1], elems = [0]\<rparr>,
            imask_layout = Strided [1],
            data = \<lparr>dtype = ''float64'', row_shape = [], rows = [10, 20 :: int]\<rparr>\<rparr>)))
       \<noteq> {0..<2}
   \<and> \<not> store_inv \<lparr>imask = \<lparr>shape = [1], elems = [0]\<rparr>, imask_layout = Strided [1],
            data = \<lparr>dtype = ''float64'', row_shape = [], rows = [10, 20 :: int]\<rparr>\<rparr>"
proof (intro conjI)
  show "ModelParams_init \<lparr>shape = [2], elems = [True, True]\<rparr>
       \<lparr>dtype = ''float64'', row_shape = [], rows = [10, 20 :: int]\<rparr>
     = Inr \<lparr>imask = \<lparr>shape = [2], elems = [0, 1]\<rparr>, imask_layout = Strided [1],
            data = \<lparr>dtype = ''float64'', row_shape = [], rows = [10, 20 :: int]\<rparr>\<rparr>"
    by code_simp
  show "ModelParams_getitem scan_order
         \<lparr>imask = \<lparr>shape = [2], elems = [0, 1]\<rparr>, imask_layout = Strided [1],
            data = \<lparr>dtype = ''float64'', row_shape = [], rows = [10, 20 :: int]\<rparr>\<rparr>
         [Slice None (Some 1) None]
     = Inr \<lparr>imask = \<lparr>shape = [1], elems = [0]\<rparr>, imask_layout = Strided [1],
            data = \<lparr>dtype = ''float64'', row_shape = [], rows = [10, 20 :: int]\<rparr>\<rparr>"
    by code_simp
  show "set (filter (\<lambda>v. 0 \<le> v) (elems (imask \<lparr>imask = \<lparr>shape = [1], elems = [0]\<rparr>,
            imask_layout = Strided [1],
            data = \<lparr>dtype = ''float64'', row_shape = [], rows = [10, 20 :: int]\<rparr>\<rparr>)))
       \<noteq> {0..<2}"
  proof
    assume e: "set (filter (\<lambda>v. 0 \<le> v) (elems (imask \<lparr>imask = \<lparr>shape = [1], elems = [0]\<rparr>,
            imask_layout = Strided [1],
            data = \<lparr>dtype = ''float64'', row_shape = [], rows = [10, 20 :: int]\<rparr>\<rparr>)))
       = {0..<2}"
    have "(1::int) \<in> {0..<2}" by simp
    then have "(1::int) \<in> set (filter (\<lambda>v. 0 \<le> v) (elems (imask \<lparr>imask = \<lparr>shape = [1], elems = [0]\<rparr>,
            imask_layout = Strided [1],
            data = \<lparr>dtype = ''float64'', row_shape = [], rows = [10, 20 :: int]\<rparr>\<rparr>)))"
      by (simp only: e)
    then show False by simp
  qed
  show "\<not> store_inv \<lparr>imask = \<lparr>shape = [1], elems = [0]\<rparr>, imask_layout = Strided [1],
            data = \<lparr>dtype = ''float64'', row_shape = [], rows = [10, 20 :: int]\<rparr>\<rparr>"
    by (simp add: store_inv_def upt_conv_Cons)
qed

text \<open>
  With an array of integers in the index a view holds a row number more than once: the
  view \<^verbatim>\<open>store[[0, 0]]\<close> of the store above has the index volume \<open>[0, 0]\<close>, which keeps
  \<open>rows_inv\<close> and not \<open>view_inv\<close>.
\<close>

lemma ModelParams_getitem_repeats_rows:
  "ModelParams_getitem scan_order
         \<lparr>imask = \<lparr>shape = [2], elems = [0, 1]\<rparr>, imask_layout = Strided [1],
            data = \<lparr>dtype = ''float64'', row_shape = [], rows = [10, 20 :: int]\<rparr>\<rparr>
         [IntArray \<lparr>shape = [2], elems = [0, 0]\<rparr>]
     = Inr \<lparr>imask = \<lparr>shape = [2], elems = [0, 0]\<rparr>, imask_layout = Strided [1],
            data = \<lparr>dtype = ''float64'', row_shape = [], rows = [10, 20 :: int]\<rparr>\<rparr>
   \<and> rows_inv \<lparr>imask = \<lparr>shape = [2], elems = [0, 0]\<rparr>, imask_layout = Strided [1],
            data = \<lparr>dtype = ''float64'', row_shape = [], rows = [10, 20 :: int]\<rparr>\<rparr>
   \<and> \<not> view_inv \<lparr>imask = \<lparr>shape = [2], elems = [0, 0]\<rparr>, imask_layout = Strided [1],
            data = \<lparr>dtype = ''float64'', row_shape = [], rows = [10, 20 :: int]\<rparr>\<rparr>"
proof (intro conjI)
  show "ModelParams_getitem scan_order
         \<lparr>imask = \<lparr>shape = [2], elems = [0, 1]\<rparr>, imask_layout = Strided [1],
            data = \<lparr>dtype = ''float64'', row_shape = [], rows = [10, 20 :: int]\<rparr>\<rparr>
         [IntArray \<lparr>shape = [2], elems = [0, 0]\<rparr>]
     = Inr \<lparr>imask = \<lparr>shape = [2], elems = [0, 0]\<rparr>, imask_layout = Strided [1],
            data = \<lparr>dtype = ''float64'', row_shape = [], rows = [10, 20 :: int]\<rparr>\<rparr>"
    by code_simp
  show "rows_inv \<lparr>imask = \<lparr>shape = [2], elems = [0, 0]\<rparr>, imask_layout = Strided [1],
            data = \<lparr>dtype = ''float64'', row_shape = [], rows = [10, 20 :: int]\<rparr>\<rparr>"
    by (simp add: rows_inv_def wf_array_def int32_entries_def)
  show "\<not> view_inv \<lparr>imask = \<lparr>shape = [2], elems = [0, 0]\<rparr>, imask_layout = Strided [1],
            data = \<lparr>dtype = ''float64'', row_shape = [], rows = [10, 20 :: int]\<rparr>\<rparr>"
    by (simp add: view_inv_def)
qed

text \<open>
  The assignment to the shape of a view: the view \<^verbatim>\<open>store[:, :2]\<close> of a store of the shape
  \<open>(2, 3)\<close> has the shape \<open>(2, 2)\<close> and the strides \<open>(3, 1)\<close> of the store. The shape \<open>(4,)\<close>
  needs a copy, and the assignment is the AttributeError; the shape \<open>(2, 2, 1)\<close> is
  taken in place. The view \<^verbatim>\<open>store[0, 1]\<close> is an array scalar, whose shape cannot be
  assigned to.
\<close>

lemma ModelParams_set_shape_of_view:
  "ModelParams_getitem scan_order
         \<lparr>imask = \<lparr>shape = [2, 3], elems = [0, 1, 2, 3, 4, 5]\<rparr>, imask_layout = Strided [3, 1],
            data = \<lparr>dtype = ''float64'', row_shape = [], rows = [10, 20, 30, 40, 50, 60 :: int]\<rparr>\<rparr>
         [Slice None None None, Slice None (Some 2) None]
     = Inr \<lparr>imask = \<lparr>shape = [2, 2], elems = [0, 1, 3, 4]\<rparr>, imask_layout = Strided [3, 1],
            data = \<lparr>dtype = ''float64'', row_shape = [], rows = [10, 20, 30, 40, 50, 60 :: int]\<rparr>\<rparr>
   \<and> ModelParams_set_shape
         \<lparr>imask = \<lparr>shape = [2, 2], elems = [0, 1, 3, 4]\<rparr>, imask_layout = Strided [3, 1],
            data = \<lparr>dtype = ''float64'', row_shape = [], rows = [10, 20, 30, 40, 50, 60 :: int]\<rparr>\<rparr>
         [4]
     = Inl NumpyAttributeError
   \<and> ModelParams_set_shape
         \<lparr>imask = \<lparr>shape = [2, 2], elems = [0, 1, 3, 4]\<rparr>, imask_layout = Strided [3, 1],
            data = \<lparr>dtype = ''float64'', row_shape = [], rows = [10, 20, 30, 40, 50, 60 :: int]\<rparr>\<rparr>
         [2, 2, 1]
     = Inr \<lparr>imask = \<lparr>shape = [2, 2, 1], elems = [0, 1, 3, 4]\<rparr>, imask_layout = Strided [3, 1, 1],
            data = \<lparr>dtype = ''float64'', row_shape = [], rows = [10, 20, 30, 40, 50, 60 :: int]\<rparr>\<rparr>
   \<and> ModelParams_getitem scan_order
         \<lparr>imask = \<lparr>shape = [2, 3], elems = [0, 1, 2, 3, 4, 5]\<rparr>, imask_layout = Strided [3, 1],
            data = \<lparr>dtype = ''float64'', row_shape = [], rows = [10, 20, 30, 40, 50, 60 :: int]\<rparr>\<rparr>
         [Idx 0, Idx 1]
     = Inr \<lparr>imask = \<lparr>shape = [], elems = [1]\<rparr>, imask_layout = Scalar,
            data = \<lparr>dtype = ''float64'', row_shape = [], rows = [10, 20, 30, 40, 50, 60 :: int]\<rparr>\<rparr>
   \<and> ModelParams_set_shape
         \<lparr>imask = \<lparr>shape = [], elems = [1]\<rparr>, imask_layout = Scalar,
            data = \<lparr>dtype = ''float64'', row_shape = [], rows = [10, 20, 30, 40, 50, 60 :: int]\<rparr>\<rparr>
         [1]
     = Inl NumpyAttributeError"
  by (intro conjI; code_simp)




text \<open>
  An index that the index volume cannot be indexed by is the error of the indexing, and
  nothing is written.
\<close>

lemma ModelParams_setitem_invalid_index:
  "np_getitem (imask s) index = Inl e \<Longrightarrow> ModelParams_setitem s index vals = Inl e"
  by (simp add: ModelParams_setitem_def)

section \<open>The rows of a store as an array: proofs\<close>

text \<open>
  Claim C2, as amended. In a store or a view, whose index volume holds \<open>-1\<close> and row
  numbers of the data (\<open>rows_inv\<close>), \<^verbatim>\<open>__array__\<close> returns the rows of the data that the non-negative entries of the
  index volume address, in scan order: an array of shape \<open>(n,) + row shape\<close> for \<open>n\<close>
  masked positions, which for a constructed store is the data array itself. When the
  requested \<open>dtype\<close> compares equal to the element type of the data, the rows are
  returned as they are, with that element type; otherwise the result is their cast by
  \<^verbatim>\<open>astype(dtype)\<close>.
\<close>

theorem ModelParams_array_rows:
  assumes "rows_inv s"
  shows "(dtype_eq dt (ModelParams_dtype s) \<longrightarrow>
            (\<exists>r. ModelParams_array dtype_eq astype s dt = Inr r
                \<and> dtype r = dtype (data s)
                \<and> row_shape r = row_shape (data s)
                \<and> rows r = map (\<lambda>v. rows (data s) ! nat v) (filter (\<lambda>v. 0 \<le> v) (elems (imask s)))
                \<and> row_array_shape r =
                      length (filter (\<lambda>v. 0 \<le> v) (elems (imask s))) # row_shape (data s)
                \<and> (store_inv s \<longrightarrow> r = data s)))
       \<and> (\<not> dtype_eq dt (ModelParams_dtype s) \<longrightarrow>
            ModelParams_array dtype_eq astype s dt =
              astype dt ((data s)\<lparr>rows :=
                 map (\<lambda>v. rows (data s) ! nat v) (filter (\<lambda>v. 0 \<le> v) (elems (imask s)))\<rparr>))"
proof -
  let ?idx = "filter (\<lambda>v. 0 \<le> v) (elems (imask s))"
  let ?n = "length (rows (data s))"
  let ?r = "(data s)\<lparr>rows := map (\<lambda>v. rows (data s) ! nat v) ?idx\<rparr>"
  have rng: "\<forall>i \<in> set ?idx. row_in_range ?n i"
    using assms by (auto simp: rows_inv_def row_in_range_def)
  have rn: "map (\<lambda>i. rows (data s) ! row_number ?n i) ?idx = map (\<lambda>v. rows (data s) ! nat v) ?idx"
    by (rule map_cong) (auto simp: row_number_def)
  have "take_rows (data s) ?idx = Inr ((data s)\<lparr>rows := map (\<lambda>i. rows (data s) ! row_number ?n i) ?idx\<rparr>)"
    unfolding take_rows_def by (rule if_P[OF rng])
  then have t: "take_rows (data s) (masked_rows s) = Inr ?r"
    unfolding masked_rows_filter rn .
  have full: "?r = data s" if "store_inv s"
  proof -
    have "?idx = map int [0..<?n]" using that by (simp add: store_inv_def)
    then have "map (\<lambda>v. rows (data s) ! nat v) ?idx = map (\<lambda>i. rows (data s) ! i) [0..<?n]"
      by (simp add: comp_def)
    also have "\<dots> = rows (data s)" by (rule map_nth)
    finally show ?thesis by simp
  qed
  have a: "ModelParams_array dtype_eq astype s dt = Inr ?r" if "dtype_eq dt (ModelParams_dtype s)"
    unfolding ModelParams_array_def t using that by simp
  have b: "ModelParams_array dtype_eq astype s dt = astype dt ?r" if "\<not> dtype_eq dt (ModelParams_dtype s)"
    unfolding ModelParams_array_def t using that by simp
  have c: "\<exists>r. ModelParams_array dtype_eq astype s dt = Inr r
                \<and> dtype r = dtype (data s)
                \<and> row_shape r = row_shape (data s)
                \<and> rows r = map (\<lambda>v. rows (data s) ! nat v) ?idx
                \<and> row_array_shape r = length ?idx # row_shape (data s)
                \<and> (store_inv s \<longrightarrow> r = data s)"
    if "dtype_eq dt (ModelParams_dtype s)"
    by (rule exI[of _ ?r]) (use a[OF that] full in \<open>simp add: row_array_shape_def\<close>)
  show ?thesis using b c by blast
qed

theorem ModelParams_array_rows_witness:
  "ModelParams_array dtype_eq_py astype_relabel
      \<lparr>imask = \<lparr>shape = [2, 2], elems = [- 1, 1, - 1, 0]\<rparr>, imask_layout = Strided [2, 1],
       data = \<lparr>dtype = ''float64'', row_shape = [], rows = [10, 20 :: int]\<rparr>\<rparr>
      (Some ''float64'')
    = Inr \<lparr>dtype = ''float64'', row_shape = [], rows = [20, 10 :: int]\<rparr>
   \<and> ModelParams_array dtype_eq_py astype_relabel
      \<lparr>imask = \<lparr>shape = [2, 2], elems = [- 1, 1, - 1, 0]\<rparr>, imask_layout = Strided [2, 1],
       data = \<lparr>dtype = ''float64'', row_shape = [], rows = [10, 20 :: int]\<rparr>\<rparr>
      (Some ''int32'')
    = Inr \<lparr>dtype = ''int32'', row_shape = [], rows = [20, 10 :: int]\<rparr>"
proof -
  let ?s = "\<lparr>imask = \<lparr>shape = [2, 2], elems = [- 1, 1, - 1, 0]\<rparr>, imask_layout = Strided [2, 1],
       data = \<lparr>dtype = ''float64'', row_shape = [], rows = [10, 20 :: int]\<rparr>\<rparr>"
  have v: "rows_inv ?s" by (simp add: rows_inv_def wf_array_def int32_entries_def)
  have e: "dtype_eq_py (Some ''float64'') (ModelParams_dtype ?s)"
    by (simp add: dtype_eq_py_def ModelParams_dtype_def)
  have n: "\<not> dtype_eq_py (Some ''int32'') (ModelParams_dtype ?s)"
    by (simp add: dtype_eq_py_def ModelParams_dtype_def)
  from ModelParams_array_rows[OF v, of dtype_eq_py "Some ''float64''" astype_relabel] e
  obtain r where r: "ModelParams_array dtype_eq_py astype_relabel ?s (Some ''float64'') = Inr r"
    "dtype r = dtype (data ?s)" "row_shape r = row_shape (data ?s)"
    "rows r = map (\<lambda>v. rows (data ?s) ! nat v) (filter (\<lambda>v. 0 \<le> v) (elems (imask ?s)))"
    by blast
  have r': "r = \<lparr>dtype = ''float64'', row_shape = [], rows = [20, 10 :: int]\<rparr>"
    using r(2,3,4) by (cases r) simp
  have "ModelParams_array dtype_eq_py astype_relabel ?s (Some ''int32'')
      = astype_relabel (Some ''int32'') ((data ?s)\<lparr>rows :=
          map (\<lambda>v. rows (data ?s) ! nat v) (filter (\<lambda>v. 0 \<le> v) (elems (imask ?s)))\<rparr>)"
    using ModelParams_array_rows[OF v, of dtype_eq_py "Some ''int32''" astype_relabel] n by blast
  then have c: "ModelParams_array dtype_eq_py astype_relabel ?s (Some ''int32'')
      = Inr \<lparr>dtype = ''int32'', row_shape = [], rows = [20, 10 :: int]\<rparr>"
    by (simp add: astype_relabel_def)
  show ?thesis using r(1) r' c by simp
qed

text \<open>
  Claim C2 as stated fails: for a mask of shape \<open>(2, 2)\<close> with one True entry and rows of
  shape \<open>(3,)\<close> the result has the shape \<open>(1, 3)\<close> of the compacted rows, not the shape
  \<open>(2, 2, 3)\<close> of the volume.
\<close>

theorem ModelParams_array_not_volume_shaped:
  "ModelParams_init \<lparr>shape = [2, 2], elems = [False, True, False, False]\<rparr>
       \<lparr>dtype = ''float64'', row_shape = [3], rows = [[1, 2, 3 :: int]]\<rparr>
     = Inr \<lparr>imask = \<lparr>shape = [2, 2], elems = [- 1, 0, - 1, - 1]\<rparr>, imask_layout = Strided [2, 1],
            data = \<lparr>dtype = ''float64'', row_shape = [3], rows = [[1, 2, 3 :: int]]\<rparr>\<rparr>
   \<and> ModelParams_array dtype_eq_py astype_relabel
        \<lparr>imask = \<lparr>shape = [2, 2], elems = [- 1, 0, - 1, - 1]\<rparr>, imask_layout = Strided [2, 1],
         data = \<lparr>dtype = ''float64'', row_shape = [3], rows = [[1, 2, 3 :: int]]\<rparr>\<rparr>
        (Some ''float64'')
     = Inr \<lparr>dtype = ''float64'', row_shape = [3], rows = [[1, 2, 3 :: int]]\<rparr>
   \<and> row_array_shape \<lparr>dtype = ''float64'', row_shape = [3], rows = [[1, 2, 3 :: int]]\<rparr> = [1, 3]
   \<and> row_array_shape \<lparr>dtype = ''float64'', row_shape = [3], rows = [[1, 2, 3 :: int]]\<rparr>
       \<noteq> shape (ModelParams_mask \<lparr>imask = \<lparr>shape = [2, 2], elems = [- 1, 0, - 1, - 1]\<rparr>, imask_layout = Strided [2, 1],
            data = \<lparr>dtype = ''float64'', row_shape = [3], rows = [[1, 2, 3 :: int]]\<rparr>\<rparr>) @ [3]"
proof (intro conjI)
  show "ModelParams_init \<lparr>shape = [2, 2], elems = [False, True, False, False]\<rparr>
       \<lparr>dtype = ''float64'', row_shape = [3], rows = [[1, 2, 3 :: int]]\<rparr>
     = Inr \<lparr>imask = \<lparr>shape = [2, 2], elems = [- 1, 0, - 1, - 1]\<rparr>, imask_layout = Strided [2, 1],
            data = \<lparr>dtype = ''float64'', row_shape = [3], rows = [[1, 2, 3 :: int]]\<rparr>\<rparr>"
    by code_simp
  show "ModelParams_array dtype_eq_py astype_relabel
        \<lparr>imask = \<lparr>shape = [2, 2], elems = [- 1, 0, - 1, - 1]\<rparr>, imask_layout = Strided [2, 1],
         data = \<lparr>dtype = ''float64'', row_shape = [3], rows = [[1, 2, 3 :: int]]\<rparr>\<rparr>
        (Some ''float64'')
     = Inr \<lparr>dtype = ''float64'', row_shape = [3], rows = [[1, 2, 3 :: int]]\<rparr>"
    by code_simp
  show "row_array_shape \<lparr>dtype = ''float64'', row_shape = [3], rows = [[1, 2, 3 :: int]]\<rparr> = [1, 3]"
    by (simp add: row_array_shape_def)
  show "row_array_shape \<lparr>dtype = ''float64'', row_shape = [3], rows = [[1, 2, 3 :: int]]\<rparr>
       \<noteq> shape (ModelParams_mask \<lparr>imask = \<lparr>shape = [2, 2], elems = [- 1, 0, - 1, - 1]\<rparr>, imask_layout = Strided [2, 1],
            data = \<lparr>dtype = ''float64'', row_shape = [3], rows = [[1, 2, 3 :: int]]\<rparr>\<rparr>) @ [3]"
    by (simp add: row_array_shape_def ModelParams_mask_def)
qed

section \<open>The model ODF: proofs\<close>

lemma length_sph_harm_ind_list:
  assumes "even order" "0 \<le> order"
  shows "\<exists>m_list n_list. sph_harm_ind_list garbage order = Inr (m_list, n_list)
           \<and> int (length m_list) = (order + 2) * (order + 1) div 2"
proof -
  from assms obtain k where k: "order = 2 * int k"
    by (metis evenE nonneg_int_cases zero_le_mult_iff zero_le_numeral not_numeral_le_zero)
  show ?thesis
    unfolding k sph_harm_ind_list_even ncoef_nat by (simp add: length_sh_pairs)
qed

text \<open>
  Claim C4. For the input that the constructor is written for, an \<open>order\<close> (the argument
  \<^verbatim>\<open>sh_order\<close>) that is even and not negative and a gradient table of three rows with one
  entry for each b-value: when fewer b-values are positive than the index list has
  pairs, \<^verbatim>\<open>ODF.__init__\<close> raises the error of too few directions, which carries their
  number. It is raised when the directions have been converted to angles and
  \<^verbatim>\<open>sph_harm_ind_list\<close> has listed the pairs, which are the calls before the test in the
  source; the basis matrix, the pseudo-inverse, the Legendre values and the matrix
  products are not computed. The record of the calls holds the calls of the numeric
  library, which \<^verbatim>\<open>sph_harm_ind_list\<close> is not one of.
\<close>

theorem ODF_init_too_few_directions:
  assumes "even order" and "0 \<le> order"
    and "2 < length grad_table"
    and "\<forall>i < 3. length (grad_table ! i) = length b_values"
    and "int (length (filter (\<lambda>b. 0 < b) b_values)) < (order + 2) * (order + 1) div 2"
  shows "ODF_init P garbage dat order grad_table b_values keep_resid =
           ([Arctan2, Arccos], Inl (ShOrderTooHigh (length (filter (\<lambda>b. 0 < b) b_values))))"
proof -
  let ?dwi = "map (\<lambda>b. 0 < b) b_values"
  have n: "length (filter id ?dwi) = length (filter (\<lambda>b. 0 < b) b_values)"
    by (simp add: filter_map comp_def)
  have row: "np_row_bool grad_table i ?dwi = Inr (bool_select (grad_table ! i) ?dwi)" if "i < 3" for i
    using that assms(3,4) by (simp add: np_row_bool_def)
  have r0: "np_row_bool grad_table 0 ?dwi = Inr (bool_select (grad_table ! 0) ?dwi)"
    and r1: "np_row_bool grad_table 1 ?dwi = Inr (bool_select (grad_table ! 1) ?dwi)"
    and r2: "np_row_bool grad_table 2 ?dwi = Inr (bool_select (grad_table ! 2) ?dwi)"
    using row by simp_all
  from length_sph_harm_ind_list[OF assms(1,2), of garbage] obtain m_list n_list where
    l: "sph_harm_ind_list garbage order = Inr (m_list, n_list)"
       "int (length m_list) = (order + 2) * (order + 1) div 2"
    by blast
  have gt: "length (filter id ?dwi) < length m_list"
    using assms(5) l(2) unfolding n by linarith
  have ok: "\<not> (order mod 2 \<noteq> 0 \<or> order < 0)"
    using assms(1,2) by (simp add: even_iff_mod_2_eq_zero)
  show ?thesis
    unfolding ODF_init_def Let_def r0 r1 r2 l
    using ok gt by (simp add: logged_def n)
qed

theorem ODF_init_too_few_directions_witness:
  "ODF_init sample_numerics stale_memory \<lparr>shape = [2], elems = [1, 2]\<rparr> 2
      [[1, 0], [0, 1], [0, 0]] [0, 1000] False
    = ([Arctan2, Arccos], Inl (ShOrderTooHigh 1))"
proof -
  have h: "\<forall>i < 3. length ([[1, 0], [0, 1], [0, 0 :: real]] ! i) = length [0, 1000 :: real]"
    by (simp add: less_Suc_eq numeral_3_eq_3)
  show ?thesis
    using ODF_init_too_few_directions[of 2 "[[1, 0], [0, 1], [0, 0]]" "[0, 1000]"
        sample_numerics stale_memory "\<lparr>shape = [2], elems = [1, 2]\<rparr>" False] h
    by simp
qed

text \<open>
  What \<^verbatim>\<open>ODF.__getitem__\<close> does for every model: a subscript with more entries than the
  model has voxel axes is the IndexError of the source; otherwise the coefficients and
  the residuals of the new model are the originals indexed by one and the same tuple,
  and \<open>b0\<close> and the fit matrix are those of the original. The model is one of values:
  that the new arrays share the storage of the originals is outside it.
\<close>

lemma ODF_getitem_too_long:
  "ODF_ndim odf < int (length (as_tuple sub)) \<Longrightarrow> ODF_getitem odf sub = Inl InvalidIndex"
  by (simp add: ODF_getitem_def)

lemma ODF_getitem_slices:
  assumes "ODF_getitem odf sub = Inr odf'"
  shows "b0 odf' = b0 odf \<and> fit_matrix odf' = fit_matrix odf
       \<and> (\<exists>index. np_getitem (coef odf) index = Inr (coef odf')
             \<and> (case resid odf of
                   None \<Rightarrow> resid odf' = None
                 | Some r \<Rightarrow> np_getitem r index = Inr (the (resid odf')) \<and> resid odf' \<noteq> None))"
proof -
  let ?index = "if Ellipsis \<in> set (as_tuple sub) then as_tuple sub @ [Slice None None None]
                else as_tuple sub"
  from assms obtain c where c: "np_getitem (coef odf) ?index = Inr c"
    unfolding ODF_getitem_def Let_def by (auto split: if_splits sum.splits)
  show ?thesis
  proof (cases "resid odf")
    case None
    then have "odf' = odf\<lparr>coef := c\<rparr>"
      using assms c unfolding ODF_getitem_def Let_def by (auto split: if_splits)
    then show ?thesis using None c by auto
  next
    case (Some r)
    then obtain r' where r': "np_getitem r ?index = Inr r'" "odf' = odf\<lparr>coef := c, resid := Some r'\<rparr>"
      using assms c unfolding ODF_getitem_def Let_def by (auto split: if_splits sum.splits)
    then show ?thesis using Some c by auto
  qed
qed

text \<open>
  Claim C5, at the subscript \<open>(0,)\<close> of a model over two voxels: the coefficients and
  the residuals of the new model are the slices of the originals, and its \<open>b0\<close> is the
  whole array of the original, not the slice \<^verbatim>\<open>b0[0]\<close>.
\<close>

theorem ODF_getitem_keeps_b0:
  "ODF_getitem
     \<lparr>sh_order = 0, ngrad = 1, fit_matrix = \<lparr>shape = [1, 1], elems = [f]\<rparr>,
      b0 = \<lparr>shape = [2, 1], elems = [s0, s1]\<rparr>, coef = \<lparr>shape = [2, 1], elems = [c0, c1]\<rparr>,
      resid = Some \<lparr>shape = [2, 1], elems = [r0, r1]\<rparr>\<rparr>
     (Tuple [Idx 0])
   = Inr \<lparr>sh_order = 0, ngrad = 1, fit_matrix = \<lparr>shape = [1, 1], elems = [f]\<rparr>,
          b0 = \<lparr>shape = [2, 1], elems = [s0, s1]\<rparr>, coef = \<lparr>shape = [1], elems = [c0]\<rparr>,
          resid = Some \<lparr>shape = [1], elems = [r0]\<rparr>\<rparr>
   \<and> np_getitem \<lparr>shape = [2, 1], elems = [s0, s1]\<rparr> [Idx 0] = Inr \<lparr>shape = [1], elems = [s0]\<rparr>"
proof -
  have g: "np_getitem \<lparr>shape = [2, 1], elems = [x, y]\<rparr> [Idx 0] = Inr \<lparr>shape = [1], elems = [x]\<rparr>"
    for x y :: real
    by (simp add: np_getitem_def scalar_index_def consumed_def is_array_def expand_ellipsis_def)
  show ?thesis
    by (simp add: ODF_getitem_def as_tuple_def ODF_ndim_def g Let_def del: One_nat_def)
qed

text \<open>
  Claim C7, at query angles of shape \<open>(2, 2)\<close>, a model of one voxel with a zero residual
  and the identity permutation: \<^verbatim>\<open>evaluate_at\<close> returns an array of shape \<open>(2, 2)\<close>,
  \<^verbatim>\<open>evaluate_boot\<close> the same values with the shape \<open>(4,)\<close>, since it lacks the
  assignment to \<^verbatim>\<open>values.shape\<close>.
\<close>

theorem evaluate_boot_keeps_flat_shape:
  "evaluate_at P garbage
     \<lparr>sh_order = 0, ngrad = 1, fit_matrix = \<lparr>shape = [1, 1], elems = [f]\<rparr>,
      b0 = \<lparr>shape = [1], elems = [s]\<rparr>, coef = \<lparr>shape = [1], elems = [c]\<rparr>,
      resid = Some \<lparr>shape = [1], elems = [0]\<rparr>\<rparr>
     \<lparr>shape = [2, 2], elems = [t, t, t, t]\<rparr> \<lparr>shape = [2, 2], elems = [p, p, p, p]\<rparr>
   = Inr \<lparr>shape = [2, 2], elems = replicate 4 (c * Re (sp_sph_harm P 0 0 t p))\<rparr>
   \<and> evaluate_boot P garbage
     \<lparr>sh_order = 0, ngrad = 1, fit_matrix = \<lparr>shape = [1, 1], elems = [f]\<rparr>,
      b0 = \<lparr>shape = [1], elems = [s]\<rparr>, coef = \<lparr>shape = [1], elems = [c]\<rparr>,
      resid = Some \<lparr>shape = [1], elems = [0]\<rparr>\<rparr>
     \<lparr>shape = [2, 2], elems = [t, t, t, t]\<rparr> \<lparr>shape = [2, 2], elems = [p, p, p, p]\<rparr> (Some [0])
   = Inr \<lparr>shape = [4], elems = replicate 4 (c * Re (sp_sph_harm P 0 0 t p))\<rparr>"
proof -
  have i: "sph_harm_ind_list garbage 0 = Inr ([0], [0])"
    by (simp add: sph_harm_ind_list_def np_arange_def np_repeat_def np_empty_def set_slice_def
        slice_bound_def Let_def)
  have h: "real_sph_harm P [0] [0] [t, t, t, t] [p, p, p, p]
      = Inr \<lparr>shape = [1, 4], elems = replicate 4 (Re (sp_sph_harm P 0 0 t p))\<rparr>"
    by (simp add: real_sph_harm_def broadcast_shape_def real_harmonic_def broadcast_nth_def
        upt_conv_Cons numeral_eq_Suc)
  have d: "np_dot \<lparr>shape = [1], elems = [x]\<rparr> \<lparr>shape = [1, 4], elems = replicate 4 y\<rparr>
      = Inr \<lparr>shape = [4], elems = replicate 4 (x * y)\<rparr>" for x y :: real
    by (simp add: np_dot_def last_rows_def upt_conv_Cons numeral_eq_Suc)
  have a: "evaluate_at P garbage
     \<lparr>sh_order = 0, ngrad = 1, fit_matrix = \<lparr>shape = [1, 1], elems = [f]\<rparr>,
      b0 = \<lparr>shape = [1], elems = [s]\<rparr>, coef = \<lparr>shape = [1], elems = [c]\<rparr>,
      resid = Some \<lparr>shape = [1], elems = [0]\<rparr>\<rparr>
     \<lparr>shape = [2, 2], elems = [t, t, t, t]\<rparr> \<lparr>shape = [2, 2], elems = [p, p, p, p]\<rparr>
   = Inr \<lparr>shape = [2, 2], elems = replicate 4 (c * Re (sp_sph_harm P 0 0 t p))\<rparr>"
    by (simp add: evaluate_at_def i h d broadcast_shape_def np_set_shape_def ODF_shape_def
        del: One_nat_def)
  have t: "np_take_last \<lparr>shape = [1], elems = [0 :: real]\<rparr> [0] = Inr \<lparr>shape = [1], elems = [0]\<rparr>"
    by (simp add: np_take_last_def last_rows_def row_in_range_def row_number_def)
  have d1: "np_dot \<lparr>shape = [1], elems = [0]\<rparr> \<lparr>shape = [1, 1], elems = [f]\<rparr>
      = Inr \<lparr>shape = [1], elems = [0]\<rparr>"
    by (simp add: np_dot_def last_rows_def)
  have s: "np_binop (+) \<lparr>shape = [1], elems = [c]\<rparr> \<lparr>shape = [1], elems = [0 :: real]\<rparr>
      = Inr \<lparr>shape = [1], elems = [c]\<rparr>"
    by (simp add: np_binop_def broadcast_shape_def broadcast_to_def)
  have b: "evaluate_boot P garbage
     \<lparr>sh_order = 0, ngrad = 1, fit_matrix = \<lparr>shape = [1, 1], elems = [f]\<rparr>,
      b0 = \<lparr>shape = [1], elems = [s]\<rparr>, coef = \<lparr>shape = [1], elems = [c]\<rparr>,
      resid = Some \<lparr>shape = [1], elems = [0]\<rparr>\<rparr>
     \<lparr>shape = [2, 2], elems = [t, t, t, t]\<rparr> \<lparr>shape = [2, 2], elems = [p, p, p, p]\<rparr> (Some [0])
   = Inr \<lparr>shape = [4], elems = replicate 4 (c * Re (sp_sph_harm P 0 0 t p))\<rparr>"
    by (simp add: evaluate_boot_def i h t d1 s d del: One_nat_def)
  show ?thesis using a b by simp
qed

end
